theory Spec2Isabelle
  imports Complex_Main "HOL-Library.AList" "HOL-Library.Sublist"
begin

section \<open>Conventions of the embedding\<close>

text \<open>
  The dashboard is TypeScript. A JavaScript number is modelled as a \<^typ>\<open>real\<close>: the
  risk scores are compared, clamped and added, and nothing below depends on rounding. A string
  is a \<^typ>\<open>string\<close>. An optional field of an object (and a JSON field that may be
  absent or \<^verbatim>\<open>null\<close>) is an \<^typ>\<open>'a option\<close>. An awaited promise either
  rejects, which the \<^verbatim>\<open>try\<close> blocks catch, or fulfils with a value.
\<close>

datatype 'a outcome = Throws | Resolves 'a

text \<open>
  \<^verbatim>\<open>x || d\<close> on numbers: \<^verbatim>\<open>undefined\<close> and \<^verbatim>\<open>0\<close> are falsy, every
  other number is kept.
\<close>

definition truthy_num :: "real option \<Rightarrow> bool" where
  "truthy_num x = (case x of None \<Rightarrow> False | Some v \<Rightarrow> v \<noteq> 0)"

definition or_num :: "real option \<Rightarrow> real \<Rightarrow> real" where
  "or_num x d = (case x of None \<Rightarrow> d | Some v \<Rightarrow> if v = 0 then d else v)"

text \<open>\<^verbatim>\<open>a || b\<close> where both sides may be \<^verbatim>\<open>undefined\<close>.\<close>

definition or_opt :: "real option \<Rightarrow> real option \<Rightarrow> real option" where
  "or_opt x y = (if truthy_num x then x else y)"

text \<open>A string is truthy when it is present and not empty.\<close>

definition truthy_str :: "string option \<Rightarrow> bool" where
  "truthy_str s = (case s of None \<Rightarrow> False | Some v \<Rightarrow> v \<noteq> [])"

text \<open>
  \<^verbatim>\<open>xs[i]\<close> reads \<^verbatim>\<open>undefined\<close> outside the bounds of the array.
\<close>

definition js_index :: "'a list \<Rightarrow> int \<Rightarrow> 'a option" where
  "js_index xs i = (if 0 \<le> i \<and> i < int (length xs) then Some (xs ! nat i) else None)"

text \<open>
  \<^verbatim>\<open>toUpperCase\<close> and \<^verbatim>\<open>toLowerCase\<close> on the ASCII letters; every other
  character is left as it is.
\<close>

definition toUpperCase_char :: "char \<Rightarrow> char" where
  "toUpperCase_char c =
     (let n = (of_char c :: nat) in if 97 \<le> n \<and> n \<le> 122 then char_of (n - 32) else c)"

definition toUpperCase :: "string \<Rightarrow> string" where
  "toUpperCase s = map toUpperCase_char s"

definition toLowerCase_char :: "char \<Rightarrow> char" where
  "toLowerCase_char c =
     (let n = (of_char c :: nat) in if 65 \<le> n \<and> n \<le> 90 then char_of (n + 32) else c)"

definition toLowerCase :: "string \<Rightarrow> string" where
  "toLowerCase s = map toLowerCase_char s"


section \<open>Data model (types.ts)\<close>

record Port =
  id_port :: string
  name_port :: string

record Route =
  id_route :: string
  name_route :: string
  origin_route :: Port
  destination_route :: Port
  stops :: "Port list option"
  timeDeltaDays :: int
  costDeltaUSD :: int

record Shipment =
  id_shipment :: string
  contents :: string
  origin_shipment :: Port
  destination_shipment :: Port
  currentRouteId :: string
  eta :: int

record DisruptionEvent =
  name_event :: string
  description :: string

record Factors =
  congestion :: real
  tariffs :: real
  unrest :: real

record RiskEntry =
  overall :: real
  factors :: Factors

text \<open>
  \<^verbatim>\<open>RiskProfile\<close> is an object indexed by route id. It is kept as an association
  list in insertion order: \<^verbatim>\<open>{...riskProfile}\<close> copies it, \<^verbatim>\<open>p[k] = e\<close> is
  \<^const>\<open>AList.update\<close> and \<^verbatim>\<open>p[k]\<close> is \<^const>\<open>map_of\<close>.
\<close>

type_synonym RiskProfile = "(string \<times> RiskEntry) list"

record EventLog =
  message :: string
  timestamp :: nat

record UserConfiguration =
  product :: string
  origin :: string
  destination :: string


section \<open>Constants (frontend/constants.ts)\<close>

definition PORT_taiwan :: Port where
  "PORT_taiwan = \<lparr>id_port = ''TWTPE'', name_port = ''Port of Taipei, Taiwan''\<rparr>"

definition PORT_shanghai :: Port where
  "PORT_shanghai = \<lparr>id_port = ''CNSHA'', name_port = ''Port of Shanghai, China''\<rparr>"

definition PORT_singapore :: Port where
  "PORT_singapore = \<lparr>id_port = ''SGSIN'', name_port = ''Port of Singapore, Singapore''\<rparr>"

definition PORT_japan :: Port where
  "PORT_japan = \<lparr>id_port = ''JPTYO'', name_port = ''Port of Tokyo, Japan''\<rparr>"

definition PORT_vietnam :: Port where
  "PORT_vietnam = \<lparr>id_port = ''VNSGN'', name_port = ''Port of Ho Chi Minh City, Vietnam''\<rparr>"

definition PORT_los_angeles :: Port where
  "PORT_los_angeles = \<lparr>id_port = ''USLAX'', name_port = ''Port of Los Angeles, USA''\<rparr>"

definition PRIMARY_ROUTE :: Route where
  "PRIMARY_ROUTE =
     \<lparr>id_route = ''TW-LA-DIRECT'', name_route = ''Primary: Taiwan -> Los Angeles'',
      origin_route = PORT_taiwan, destination_route = PORT_los_angeles, stops = None,
      timeDeltaDays = 0, costDeltaUSD = 0\<rparr>"

definition ALTERNATIVE_ROUTES :: "Route list" where
  "ALTERNATIVE_ROUTES =
     [\<lparr>id_route = ''TW-VN-LA'', name_route = ''Alternative: Taiwan -> Vietnam -> Los Angeles'',
       origin_route = PORT_taiwan, destination_route = PORT_los_angeles,
       stops = Some [PORT_vietnam], timeDeltaDays = 1, costDeltaUSD = 15000\<rparr>,
      \<lparr>id_route = ''TW-JP-LA'', name_route = ''Alternative: Taiwan -> Japan -> Los Angeles'',
       origin_route = PORT_taiwan, destination_route = PORT_los_angeles,
       stops = Some [PORT_japan], timeDeltaDays = 2, costDeltaUSD = 25000\<rparr>,
      \<lparr>id_route = ''TW-SG-LA'', name_route = ''Alternative: Taiwan -> Singapore -> Los Angeles'',
       origin_route = PORT_taiwan, destination_route = PORT_los_angeles,
       stops = Some [PORT_singapore], timeDeltaDays = 3, costDeltaUSD = 18000\<rparr>,
      \<lparr>id_route = ''TW-SH-LA'', name_route = ''Alternative: Taiwan -> Shanghai -> Los Angeles'',
       origin_route = PORT_taiwan, destination_route = PORT_los_angeles,
       stops = Some [PORT_shanghai], timeDeltaDays = 2, costDeltaUSD = 12000\<rparr>]"

definition INITIAL_SHIPMENT :: Shipment where
  "INITIAL_SHIPMENT =
     \<lparr>id_shipment = ''ARK-SC-123'', contents = ''100x Semiconductor Containers'',
      origin_shipment = PORT_taiwan, destination_shipment = PORT_los_angeles,
      currentRouteId = id_route PRIMARY_ROUTE, eta = 14\<rparr>"

definition DISRUPTION_EVENTS :: "DisruptionEvent list" where
  "DISRUPTION_EVENTS =
     [\<lparr>name_event = ''Port Congestion at Los Angeles'',
       description = ''Severe container backlog at Port of Los Angeles causing 5-7 day delays. Labor shortages and increased vessel traffic contributing to congestion.''\<rparr>,
      \<lparr>name_event = ''Trade Route Tensions in South China Sea'',
       description = ''Increased military activity and diplomatic tensions affecting shipping lanes through the South China Sea. Vessels reporting longer transit times.''\<rparr>,
      \<lparr>name_event = ''Weather Disruption - Typhoon Warning'',
       description = ''Typhoon forecast affecting shipping routes in the Western Pacific. Multiple ports temporarily closed, vessels rerouting to avoid severe weather.''\<rparr>,
      \<lparr>name_event = ''Labor Strike at Major Port'',
       description = ''Port workers union strike affecting operations at multiple terminals. Delays expected for all vessels scheduled to dock in the next 48 hours.''\<rparr>,
      \<lparr>name_event = ''Fuel Price Surge'',
       description = ''Sudden spike in marine fuel prices affecting shipping costs. Bunker fuel costs increased by 25%, impacting route economics.''\<rparr>,
      \<lparr>name_event = ''Regulatory Changes - New Customs Requirements'',
       description = ''New customs documentation requirements announced. Additional processing time expected at destination ports, potential for delays.''\<rparr>,
      \<lparr>name_event = ''Cyber Attack on Port Systems'',
       description = ''Cybersecurity incident affecting port management systems. Operations slowed while systems are restored, causing delays.''\<rparr>,
      \<lparr>name_event = ''Bridge Closure - Major Shipping Lane'',
       description = ''Critical bridge closure affecting access to major port. Alternative routes required, adding transit time and costs.''\<rparr>]"

text \<open>
  \<^verbatim>\<open>DISRUPTION_EVENTS[Math.floor(Math.random() * DISRUPTION_EVENTS.length)]\<close>, with
  the value of \<^verbatim>\<open>Math.random()\<close> as the argument.
\<close>

definition getRandomDisruptionEvent :: "real \<Rightarrow> DisruptionEvent option" where
  "getRandomDisruptionEvent r =
     js_index DISRUPTION_EVENTS \<lfloor>r * real (length DISRUPTION_EVENTS)\<rfloor>"


section \<open>The application shell (App.tsx)\<close>

datatype Page = landing | auth | onboarding | dashboard | history | settings | notfound

datatype Theme = light | dark

record AppState =
  page :: Page
  theme :: Theme
  eventHistory :: "EventLog list"
  userConfig :: "UserConfiguration option"

text \<open>The four \<^verbatim>\<open>useState\<close> initial values of \<^verbatim>\<open>App\<close>.\<close>

definition initial_app :: AppState where
  "initial_app = \<lparr>page = landing, theme = dark, eventHistory = [], userConfig = None\<rparr>"

text \<open>
  \<^verbatim>\<open>setEventHistory(prev => [...prev, { message, timestamp: new Date() }])\<close>, with the
  clock reading as an argument.
\<close>

definition addEvent :: "string \<Rightarrow> nat \<Rightarrow> EventLog list \<Rightarrow> EventLog list" where
  "addEvent msg now prev = prev @ [\<lparr>message = msg, timestamp = now\<rparr>]"

text \<open>
  The state setters the shell hands to its pages: \<^verbatim>\<open>navigate\<close>, \<^verbatim>\<open>setTheme\<close>,
  \<^verbatim>\<open>setUserConfig\<close> and \<^verbatim>\<open>addEvent\<close>. No page receives \<^verbatim>\<open>setEventHistory\<close>.
\<close>

datatype AppAction =
    Navigate Page
  | SetTheme Theme
  | SetUserConfig "UserConfiguration option"
  | AddEvent string nat

fun app_step :: "AppState \<Rightarrow> AppAction \<Rightarrow> AppState" where
  "app_step s (Navigate p) = s\<lparr>page := p\<rparr>"
| "app_step s (SetTheme t) = s\<lparr>theme := t\<rparr>"
| "app_step s (SetUserConfig c) = s\<lparr>userConfig := c\<rparr>"
| "app_step s (AddEvent msg now) = s\<lparr>eventHistory := addEvent msg now (eventHistory s)\<rparr>"

text \<open>
  \<^verbatim>\<open>HistoryPage\<close> renders \<^verbatim>\<open>eventHistory.slice().reverse()\<close>: a reversed copy, the
  list itself is not touched.
\<close>

definition history_rendered :: "EventLog list \<Rightarrow> EventLog list" where
  "history_rendered evs = rev evs"


section \<open>Shipment identifiers\<close>

text \<open>\<^verbatim>\<open>s.slice(0, n)\<close> for a non-negative \<^verbatim>\<open>n\<close>.\<close>

definition slice0 :: "nat \<Rightarrow> string \<Rightarrow> string" where
  "slice0 n s = take n s"

text \<open>\<^verbatim>\<open>.replace(/\s/g, '')\<close> on the blank characters of ASCII.\<close>

definition is_space :: "char \<Rightarrow> bool" where
  "is_space c = ((of_char c :: nat) \<in> {9, 10, 11, 12, 13, 32})"

definition strip_spaces :: "string \<Rightarrow> string" where
  "strip_spaces s = filter (\<lambda>c. \<not> is_space c) s"

text \<open>\<^verbatim>\<open>personalizedShipment\<close> of \<^verbatim>\<open>DashboardPage\<close>.\<close>

definition personalizedShipment :: "UserConfiguration option \<Rightarrow> Shipment" where
  "personalizedShipment cfg =
     (case cfg of
        None \<Rightarrow> INITIAL_SHIPMENT
      | Some c \<Rightarrow>
          (let originPort = \<lparr>id_port = strip_spaces (toUpperCase (slice0 5 (origin c))),
                              name_port = origin c\<rparr>;
               destinationPort = \<lparr>id_port = strip_spaces (toUpperCase (slice0 5 (destination c))),
                                   name_port = destination c\<rparr>
           in INITIAL_SHIPMENT
                \<lparr>id_shipment := ''ARK-SC-'' @ toUpperCase (slice0 3 (product c)),
                 contents := product c,
                 origin_shipment := originPort,
                 destination_shipment := destinationPort\<rparr>))"

text \<open>\<^verbatim>\<open>shipmentId\<close> of \<^verbatim>\<open>HistoryPage\<close>.\<close>

definition shipmentId :: "UserConfiguration option \<Rightarrow> string" where
  "shipmentId cfg =
     (case cfg of
        Some c \<Rightarrow> ''ARK-SC-'' @ toUpperCase (slice0 3 (product c))
      | None \<Rightarrow> id_shipment INITIAL_SHIPMENT)"


section \<open>The active route\<close>

definition allRoutes :: "Route list" where
  "allRoutes = PRIMARY_ROUTE # ALTERNATIVE_ROUTES"

text \<open>
  \<^verbatim>\<open>allRoutes.find(r => r.id === activeRouteId) || PRIMARY_ROUTE\<close>. The result is
  optional so that a missing route would show as \<^const>\<open>None\<close>.
\<close>

definition activeRoute :: "string \<Rightarrow> Route option" where
  "activeRoute activeRouteId =
     (case List.find (\<lambda>r. id_route r = activeRouteId) allRoutes of
        Some r \<Rightarrow> Some r
      | None \<Rightarrow> Some PRIMARY_ROUTE)"


section \<open>The recommendation service (services/perplexityService.ts)\<close>

record AgentResponse =
  success_agent :: bool
  response_agent :: "string option"

text \<open>
  What \<^verbatim>\<open>fetch\<close> gives \<^verbatim>\<open>getDirectPerplexityAnalysis\<close>: \<^verbatim>\<open>response.ok\<close>,
  \<^verbatim>\<open>response.status\<close> and, of the JSON body, the \<^verbatim>\<open>message.content\<close> of each
  element of \<^verbatim>\<open>choices\<close>.
\<close>

record PerplexityReply =
  ok :: bool
  status :: nat
  choices :: "string option list option"

datatype ServiceError =
    NoApiKey
  | PerplexityApiError nat
  | FetchFailed

definition getDirectPerplexityAnalysis ::
  "string option \<Rightarrow> PerplexityReply outcome \<Rightarrow> ServiceError + string" where
  "getDirectPerplexityAnalysis PERPLEXITY_API_KEY reply =
     (if \<not> truthy_str PERPLEXITY_API_KEY then Inl NoApiKey
      else (case reply of
              Throws \<Rightarrow> Inl FetchFailed
            | Resolves r \<Rightarrow>
                (if \<not> ok r then Inl (PerplexityApiError (status r))
                 else (case choices r of
                         None \<Rightarrow> Inl FetchFailed
                       | Some [] \<Rightarrow> Inr ''No response from Perplexity API''
                       | Some (None # _) \<Rightarrow> Inr ''No response from Perplexity API''
                       | Some (Some t # _) \<Rightarrow>
                           (if t = [] then Inr ''No response from Perplexity API'' else Inr t)))))"

definition canned_recommendation :: string where
  "canned_recommendation =
     ''Based on the analysis, I recommend selecting the alternative route with the lowest risk score (32%). This route provides the best balance between risk reduction and minimal time impact.''"

text \<open>
  \<^verbatim>\<open>getPerplexityAnalysis\<close>. The first argument is the configured key, the second the
  result of \<^verbatim>\<open>queryAgent(prompt)\<close> (a JSON body that may be \<^verbatim>\<open>null\<close>), the third
  what the direct call would receive.
\<close>

definition getPerplexityAnalysis ::
  "string option \<Rightarrow> (string \<Rightarrow> AgentResponse option outcome) \<Rightarrow> (string \<Rightarrow> PerplexityReply outcome)
     \<Rightarrow> string \<Rightarrow> ServiceError + string" where
  "getPerplexityAnalysis PERPLEXITY_API_KEY queryAgent fetch_direct prompt =
     (let fallback =
            (if truthy_str PERPLEXITY_API_KEY
             then getDirectPerplexityAnalysis PERPLEXITY_API_KEY (fetch_direct prompt)
             else Inr canned_recommendation)
      in (case queryAgent prompt of
            Throws \<Rightarrow> fallback
          | Resolves None \<Rightarrow> fallback
          | Resolves (Some resp) \<Rightarrow>
              (if success_agent resp \<and> truthy_str (response_agent resp)
               then Inr (case response_agent resp of Some t \<Rightarrow> t | None \<Rightarrow> [])
               else fallback)))"

text \<open>The agent query has failed: it threw, or it gave no successful response.\<close>

definition agent_failed :: "AgentResponse option outcome \<Rightarrow> bool" where
  "agent_failed out =
     (case out of
        Throws \<Rightarrow> True
      | Resolves None \<Rightarrow> True
      | Resolves (Some resp) \<Rightarrow> \<not> (success_agent resp \<and> truthy_str (response_agent resp)))"


section \<open>Backend responses (services/apiService.ts)\<close>

text \<open>
  \<^verbatim>\<open>apiCall\<close> throws when the response is not \<^verbatim>\<open>ok\<close> (or the request fails) and
  otherwise returns the parsed JSON body, which may be \<^verbatim>\<open>null\<close>. The records hold
  the fields the dashboard reads; a score is a JSON number or absent.
\<close>

record FactorsJson =
  congestion_json :: "real option"
  tariffs_json :: "real option"
  political_unrest :: "real option"

record Breakdown =
  port_congestion :: "real option"
  trade_news :: "real option"
  political :: "real option"

record Assessment =
  overall_risk_score :: "real option"
  factors_json :: "FactorsJson option"
  breakdown :: "Breakdown option"

record AssessResponse =
  success_assess :: bool
  assessment :: "Assessment option"

record Metrics =
  risk_score :: "real option"

record OptRoute =
  route_id :: "string option"
  waypoints :: "string list option"
  metrics :: "Metrics option"
  risk_assessment :: "Assessment option"

record OptResponse =
  success_opt :: bool
  optimized_routes :: "OptRoute list option"

text \<open>
  \<^verbatim>\<open>resp?.success && resp?.assessment\<close>: the assessment the \<^verbatim>\<open>if\<close> branch works
  on, when the condition holds.
\<close>

definition assess_ok :: "AssessResponse option \<Rightarrow> Assessment option" where
  "assess_ok resp =
     (case resp of
        None \<Rightarrow> None
      | Some r \<Rightarrow> if success_assess r then assessment r else None)"

text \<open>\<^verbatim>\<open>resp?.success && resp?.optimized_routes\<close>, likewise.\<close>

definition optimize_ok :: "OptResponse option \<Rightarrow> OptRoute list option" where
  "optimize_ok resp =
     (case resp of
        None \<Rightarrow> None
      | Some r \<Rightarrow> if success_opt r then optimized_routes r else None)"

text \<open>
  \<^verbatim>\<open>a?.factors?.f || breakdown.b || d\<close> with
  \<^verbatim>\<open>breakdown = a?.breakdown || {}\<close>.
\<close>

definition factor_of ::
  "Assessment option \<Rightarrow> (FactorsJson \<Rightarrow> real option) \<Rightarrow> (Breakdown \<Rightarrow> real option) \<Rightarrow> real \<Rightarrow> real" where
  "factor_of a f b d =
     or_num (or_opt (Option.bind (Option.bind a factors_json) f)
                    (Option.bind (Option.bind a breakdown) b)) d"


section \<open>Array helpers\<close>

text \<open>\<^verbatim>\<open>xs.indexOf(x)\<close> and \<^verbatim>\<open>xs.findIndex(p)\<close>: the first position, or \<open>-1\<close>.\<close>

fun indexOf_from :: "int \<Rightarrow> 'a list \<Rightarrow> 'a \<Rightarrow> int" where
  "indexOf_from i [] x = -1"
| "indexOf_from i (y # ys) x = (if y = x then i else indexOf_from (i + 1) ys x)"

definition indexOf :: "'a list \<Rightarrow> 'a \<Rightarrow> int" where
  "indexOf xs x = indexOf_from 0 xs x"

fun findIndex_from :: "int \<Rightarrow> ('a \<Rightarrow> bool) \<Rightarrow> 'a list \<Rightarrow> int" where
  "findIndex_from i p [] = -1"
| "findIndex_from i p (y # ys) = (if p y then i else findIndex_from (i + 1) p ys)"

definition findIndex :: "('a \<Rightarrow> bool) \<Rightarrow> 'a list \<Rightarrow> int" where
  "findIndex p xs = findIndex_from 0 p xs"

text \<open>\<^verbatim>\<open>s.includes(t)\<close>: \<open>t\<close> occurs in \<open>s\<close> as a contiguous part.\<close>

fun starts_with :: "string \<Rightarrow> string \<Rightarrow> bool" where
  "starts_with s [] = True"
| "starts_with [] (y # ys) = False"
| "starts_with (x # xs) (y # ys) = (x = y \<and> starts_with xs ys)"

fun includes_str :: "string \<Rightarrow> string \<Rightarrow> bool" where
  "includes_str [] t = (t = [])"
| "includes_str (x # xs) t = (starts_with (x # xs) t \<or> includes_str xs t)"

text \<open>\<^verbatim>\<open>s.split(',')[0]\<close>: the part before the first comma.\<close>

definition split_comma_first :: "string \<Rightarrow> string" where
  "split_comma_first s = takeWhile (\<lambda>c. c \<noteq> CHR '','') s"

text \<open>The decimal digits of an array index, for the template \<^verbatim>\<open>`route-${index}`\<close>.\<close>

fun show_nat :: "nat \<Rightarrow> string" where
  "show_nat n =
     (if n < 10 then [char_of (48 + n)] else show_nat (n div 10) @ [char_of (48 + n mod 10)])"


section \<open>The initial assessment (fetchInitialData)\<close>

text \<open>
  Only the risk profile is followed: the event messages, the loading flags and the risk
  data points do not feed back into it. The backend is a function from the route id of
  the request to the outcome of \<^verbatim>\<open>assessRoute\<close>, and \<open>rnd\<close> gives the value of
  \<^verbatim>\<open>Math.random()\<close> drawn while a route is processed.
\<close>

definition initial_primary_fallback :: RiskEntry where
  "initial_primary_fallback =
     \<lparr>overall = 0.15, factors = \<lparr>congestion = 0.1, tariffs = 0.08, unrest = 0.12\<rparr>\<rparr>"

definition initial_primary_assessed :: "Assessment \<Rightarrow> RiskEntry" where
  "initial_primary_assessed a =
     \<lparr>overall = max 0.1 (or_num (overall_risk_score a) 0.1),
      factors =
        \<lparr>congestion = max 0.05 (factor_of (Some a) congestion_json port_congestion 0.1),
         tariffs = max 0.05 (factor_of (Some a) tariffs_json trade_news 0.1),
         unrest = max 0.05 (factor_of (Some a) political_unrest political 0.1)\<rparr>\<rparr>"

definition initial_primary_entry :: "AssessResponse option outcome \<Rightarrow> RiskEntry" where
  "initial_primary_entry out =
     (case out of
        Throws \<Rightarrow> initial_primary_fallback
      | Resolves resp \<Rightarrow>
          (case assess_ok resp of
             Some a \<Rightarrow> initial_primary_assessed a
           | None \<Rightarrow> initial_primary_fallback))"

definition initial_alt_fallback :: "int \<Rightarrow> RiskEntry" where
  "initial_alt_fallback routeIndex =
     \<lparr>overall = 0.25 + real_of_int routeIndex * 0.06,
      factors =
        \<lparr>congestion = 0.2 + real_of_int routeIndex * 0.05,
         tariffs = 0.1 + real_of_int routeIndex * 0.03,
         unrest = 0.2 + real_of_int routeIndex * 0.04\<rparr>\<rparr>"

definition initial_alt_assessed :: "int \<Rightarrow> real \<Rightarrow> Assessment \<Rightarrow> RiskEntry" where
  "initial_alt_assessed routeIndex random a =
     (let baseRisk = max 0.15 (or_num (overall_risk_score a) 0.2);
          adjustedRisk = baseRisk + real_of_int routeIndex * 0.06 + random * 0.04;
          finalRisk = min 0.85 (max 0.2 adjustedRisk)
      in \<lparr>overall = finalRisk,
          factors =
            \<lparr>congestion = max 0.1 (factor_of (Some a) congestion_json port_congestion
                                     (0.2 + real_of_int routeIndex * 0.05)),
             tariffs = max 0.05 (factor_of (Some a) tariffs_json trade_news
                                   (0.1 + real_of_int routeIndex * 0.03)),
             unrest = max 0.1 (factor_of (Some a) political_unrest political
                                 (0.2 + real_of_int routeIndex * 0.04))\<rparr>\<rparr>)"

definition initial_alt_entry ::
  "(string \<Rightarrow> AssessResponse option outcome) \<Rightarrow> (string \<Rightarrow> real) \<Rightarrow> Route \<Rightarrow> RiskEntry" where
  "initial_alt_entry assess rnd route =
     (let routeIndex = indexOf ALTERNATIVE_ROUTES route
      in (case assess (id_route route) of
            Throws \<Rightarrow> initial_alt_fallback routeIndex
          | Resolves resp \<Rightarrow>
              (case assess_ok resp of
                 Some a \<Rightarrow> initial_alt_assessed routeIndex (rnd (id_route route)) a
               | None \<Rightarrow> initial_alt_fallback routeIndex)))"

text \<open>The pass "ensure all routes have risk scores": only a missing entry is filled in.\<close>

definition ensure_entry :: "RiskProfile \<Rightarrow> Route \<Rightarrow> RiskProfile" where
  "ensure_entry updated route =
     (case map_of updated (id_route route) of
        Some e \<Rightarrow> updated
      | None \<Rightarrow>
          (let routeIndex = findIndex (\<lambda>r. id_route r = id_route route) ALTERNATIVE_ROUTES
           in AList.update (id_route route)
                (if id_route route = id_route PRIMARY_ROUTE then initial_primary_fallback
                 else initial_alt_fallback routeIndex)
                updated))"

text \<open>The profile written when the health check throws (the outer \<^verbatim>\<open>catch\<close>).\<close>

definition initial_mock_profile :: RiskProfile where
  "initial_mock_profile =
     foldl (\<lambda>initialRisk route.
              AList.update (id_route route)
                \<lparr>overall = 0.1, factors = \<lparr>congestion = 0.1, tariffs = 0.1, unrest = 0.1\<rparr>\<rparr>
                initialRisk)
           [] allRoutes"

text \<open>
  The profile the \<^verbatim>\<open>catch\<close> around the assessments would write. Each assessment
  has its own \<^verbatim>\<open>try\<close>, so no outcome of the backend leads here.
\<close>

definition initial_default_profile :: RiskProfile where
  "initial_default_profile =
     foldl (\<lambda>initialRisk route.
              AList.update (id_route route)
                (if id_route route = id_route PRIMARY_ROUTE then initial_primary_fallback
                 else initial_alt_fallback
                        (findIndex (\<lambda>r. id_route r = id_route route) ALTERNATIVE_ROUTES))
                initialRisk)
           [] allRoutes"

definition fetchInitialData ::
  "unit outcome \<Rightarrow> (string \<Rightarrow> AssessResponse option outcome) \<Rightarrow> (string \<Rightarrow> real) \<Rightarrow> RiskProfile" where
  "fetchInitialData health assess rnd =
     (case health of
        Throws \<Rightarrow> initial_mock_profile
      | Resolves u \<Rightarrow>
          (let primary = [(id_route PRIMARY_ROUTE, initial_primary_entry (assess (id_route PRIMARY_ROUTE)))];
               assessed =
                 foldl (\<lambda>updated route.
                          AList.update (id_route route) (initial_alt_entry assess rnd route) updated)
                       primary ALTERNATIVE_ROUTES
           in foldl ensure_entry assessed allRoutes))"


section \<open>The polling refresh\<close>

definition poll_primary ::
  "RiskProfile \<Rightarrow> AssessResponse option outcome \<Rightarrow> RiskProfile" where
  "poll_primary updated out =
     (case out of
        Throws \<Rightarrow> updated
      | Resolves resp \<Rightarrow>
          (case assess_ok resp of
             None \<Rightarrow> updated
           | Some a \<Rightarrow>
               AList.update (id_route PRIMARY_ROUTE)
                 \<lparr>overall = or_num (overall_risk_score a) 0.1,
                  factors =
                    \<lparr>congestion = factor_of (Some a) congestion_json port_congestion 0.1,
                     tariffs = factor_of (Some a) tariffs_json trade_news 0.1,
                     unrest = factor_of (Some a) political_unrest political 0.1\<rparr>\<rparr>
                 updated))"

definition poll_alt_assessed :: "int \<Rightarrow> real \<Rightarrow> Assessment \<Rightarrow> RiskEntry" where
  "poll_alt_assessed routeIndex random a =
     (let baseRisk = or_num (overall_risk_score a) 0.2;
          adjustedRisk = baseRisk + real_of_int routeIndex * 0.05 + random * 0.03;
          finalRisk = min 0.9 (max 0.15 adjustedRisk)
      in \<lparr>overall = finalRisk,
          factors =
            \<lparr>congestion = factor_of (Some a) congestion_json port_congestion
                           (0.2 + real_of_int routeIndex * 0.05),
             tariffs = factor_of (Some a) tariffs_json trade_news
                         (0.1 + real_of_int routeIndex * 0.02),
             unrest = factor_of (Some a) political_unrest political
                        (0.2 + real_of_int routeIndex * 0.03)\<rparr>\<rparr>)"

definition poll_alt ::
  "(string \<Rightarrow> AssessResponse option outcome) \<Rightarrow> (string \<Rightarrow> real) \<Rightarrow> RiskProfile \<Rightarrow> Route
     \<Rightarrow> RiskProfile" where
  "poll_alt assess rnd updated route =
     (case assess (id_route route) of
        Throws \<Rightarrow> updated
      | Resolves resp \<Rightarrow>
          (case assess_ok resp of
             None \<Rightarrow> updated
           | Some a \<Rightarrow>
               AList.update (id_route route)
                 (poll_alt_assessed (indexOf ALTERNATIVE_ROUTES route) (rnd (id_route route)) a)
                 updated))"

text \<open>
  One tick of the interval, started from the profile the effect closed over. The result
  is the argument of \<^verbatim>\<open>setRiskProfile\<close>, or \<^const>\<open>None\<close> when the risk-data request
  throws and the tick ends in its \<^verbatim>\<open>catch\<close>.
\<close>

definition poll ::
  "RiskProfile \<Rightarrow> unit outcome \<Rightarrow> (string \<Rightarrow> AssessResponse option outcome) \<Rightarrow> (string \<Rightarrow> real)
     \<Rightarrow> RiskProfile option" where
  "poll riskProfile riskData assess rnd =
     (case riskData of
        Throws \<Rightarrow> None
      | Resolves u \<Rightarrow>
          Some (foldl (poll_alt assess rnd)
                  (poll_primary riskProfile (assess (id_route PRIMARY_ROUTE)))
                  ALTERNATIVE_ROUTES))"


section \<open>The disruption handler (triggerDisruption)\<close>

text \<open>
  The handler is a callback that closes over \<^verbatim>\<open>riskProfile\<close> and
  \<^verbatim>\<open>activeRouteId\<close>: every \<^verbatim>\<open>{ ...riskProfile }\<close> in it copies the profile the
  component held when the callback was made, also after an earlier
  \<^verbatim>\<open>setRiskProfile\<close> of the same run. The health check and the risk-data request have
  their own \<^verbatim>\<open>try\<close> and do not touch the profile.
\<close>

definition disruption_primary_fallback :: RiskEntry where
  "disruption_primary_fallback =
     \<lparr>overall = 0.78, factors = \<lparr>congestion = 0.3, tariffs = 0.9, unrest = 0.5\<rparr>\<rparr>"

definition disruption_alt0_fallback :: RiskEntry where
  "disruption_alt0_fallback =
     \<lparr>overall = 0.32, factors = \<lparr>congestion = 0.2, tariffs = 0.1, unrest = 0.2\<rparr>\<rparr>"

definition disruption_alt1_fallback :: RiskEntry where
  "disruption_alt1_fallback =
     \<lparr>overall = 0.45, factors = \<lparr>congestion = 0.4, tariffs = 0.1, unrest = 0.3\<rparr>\<rparr>"

text \<open>
  The assessment of the primary route: the profile handed to \<^verbatim>\<open>setRiskProfile\<close>, if
  any. An unsuccessful response writes nothing.
\<close>

definition disruption_primary ::
  "RiskProfile \<Rightarrow> AssessResponse option outcome \<Rightarrow> RiskProfile option" where
  "disruption_primary riskProfile out =
     (case out of
        Throws \<Rightarrow> Some (AList.update (id_route PRIMARY_ROUTE) disruption_primary_fallback riskProfile)
      | Resolves resp \<Rightarrow>
          (case assess_ok resp of
             None \<Rightarrow> None
           | Some a \<Rightarrow>
               Some (AList.update (id_route PRIMARY_ROUTE)
                       \<lparr>overall = or_num (overall_risk_score a) 0.78,
                        factors =
                          \<lparr>congestion = factor_of (Some a) congestion_json port_congestion 0.3,
                           tariffs = factor_of (Some a) tariffs_json trade_news 0.9,
                           unrest = factor_of (Some a) political_unrest political 0.5\<rparr>\<rparr>
                       riskProfile)))"

text \<open>Matching a route of the optimiser with one of the five frontend routes.\<close>

definition waypoint_matches :: "string \<Rightarrow> Port \<Rightarrow> bool" where
  "waypoint_matches wp stop =
     (let wpName = toLowerCase wp;
          stopName = toLowerCase (name_port stop)
      in includes_str wpName (split_comma_first stopName)
       \<or> includes_str stopName (split_comma_first wpName)
       \<or> (includes_str wpName ''vietnam'' \<and> includes_str stopName ''vietnam'')
       \<or> (includes_str wpName ''japan'' \<and> includes_str stopName ''tokyo'')
       \<or> (includes_str wpName ''singapore'' \<and> includes_str stopName ''singapore'')
       \<or> (includes_str wpName ''shanghai'' \<and> includes_str stopName ''shanghai''))"

definition waypoints_match :: "string list \<Rightarrow> Route \<Rightarrow> bool" where
  "waypoints_match routeWaypoints fr =
     (let frontendStops = (case stops fr of Some ps \<Rightarrow> ps | None \<Rightarrow> [])
      in if routeWaypoints = [] \<and> frontendStops = [] then id_route fr = id_route PRIMARY_ROUTE
         else if length routeWaypoints = length frontendStops
         then list_ex (\<lambda>wp. list_ex (\<lambda>stop. waypoint_matches wp stop) frontendStops) routeWaypoints
         else False)"

definition matchingFrontendRoute :: "OptRoute \<Rightarrow> Route option" where
  "matchingFrontendRoute route =
     (case List.find (\<lambda>fr. Some (id_route fr) = route_id route) allRoutes of
        Some fr \<Rightarrow> Some fr
      | None \<Rightarrow>
          (let routeWaypoints = (case waypoints route of Some ws \<Rightarrow> ws | None \<Rightarrow> [])
           in List.find (waypoints_match routeWaypoints) allRoutes))"

text \<open>
  \<^verbatim>\<open>matchingFrontendRoute?.id || route.route_id || `route-${index}`\<close>.
\<close>

definition routeId_of :: "nat \<Rightarrow> OptRoute \<Rightarrow> string" where
  "routeId_of index route =
     (let given = (if truthy_str (route_id route)
                   then (case route_id route of Some s \<Rightarrow> s | None \<Rightarrow> [])
                   else ''route-'' @ show_nat index)
      in (case matchingFrontendRoute route of
            Some fr \<Rightarrow> if id_route fr \<noteq> [] then id_route fr else given
          | None \<Rightarrow> given))"

definition optimized_entry :: "nat \<Rightarrow> real \<Rightarrow> OptRoute \<Rightarrow> RiskEntry" where
  "optimized_entry index random route =
     (let riskScore = or_num (or_opt (Option.bind (metrics route) risk_score)
                                     (Option.bind (risk_assessment route) overall_risk_score))
                             (0.3 + real index * 0.05);
          baseRisk = 0.3;
          routeSpecificRisk = baseRisk + real index * 0.08 + random * 0.1;
          finalRisk = min 0.9 (max 0.2 (if riskScore = 0 then routeSpecificRisk else riskScore))
      in \<lparr>overall = finalRisk,
          factors =
            \<lparr>congestion = factor_of (risk_assessment route) congestion_json port_congestion
                           (0.2 + real index * 0.05),
             tariffs = factor_of (risk_assessment route) tariffs_json trade_news
                         (0.1 + real index * 0.03),
             unrest = factor_of (risk_assessment route) political_unrest political
                        (0.2 + real index * 0.04)\<rparr>\<rparr>)"

text \<open>\<^verbatim>\<open>routes.forEach((route, index) => ...)\<close>, from position \<open>index\<close> on.\<close>

fun optimized_forEach :: "(nat \<Rightarrow> real) \<Rightarrow> nat \<Rightarrow> OptRoute list \<Rightarrow> RiskProfile \<Rightarrow> RiskProfile" where
  "optimized_forEach rnd index [] updated = updated"
| "optimized_forEach rnd index (route # routes) updated =
     optimized_forEach rnd (Suc index) routes
       (AList.update (routeId_of index route) (optimized_entry index (rnd index) route) updated)"

text \<open>
  \<^verbatim>\<open>if (updated[PRIMARY_ROUTE.id]) updated[PRIMARY_ROUTE.id] = { overall: Math.max(0.75, ...), ... }\<close>.
\<close>

definition raise_primary :: "RiskProfile \<Rightarrow> RiskProfile" where
  "raise_primary updated =
     (case map_of updated (id_route PRIMARY_ROUTE) of
        None \<Rightarrow> updated
      | Some e \<Rightarrow>
          AList.update (id_route PRIMARY_ROUTE)
            \<lparr>overall = max 0.75 (overall e), factors = factors e\<rparr> updated)"

definition disruption_alt_fallbacks :: "RiskProfile \<Rightarrow> RiskProfile" where
  "disruption_alt_fallbacks riskProfile =
     AList.update (id_route (ALTERNATIVE_ROUTES ! 1)) disruption_alt1_fallback
       (AList.update (id_route (ALTERNATIVE_ROUTES ! 0)) disruption_alt0_fallback riskProfile)"

text \<open>
  The optimisation step: the profile handed to \<^verbatim>\<open>setRiskProfile\<close> in the success
  branch, in the \<^verbatim>\<open>else\<close> branch and in the \<^verbatim>\<open>catch\<close>.
\<close>

definition disruption_optimize ::
  "RiskProfile \<Rightarrow> OptResponse option outcome \<Rightarrow> (nat \<Rightarrow> real) \<Rightarrow> RiskProfile" where
  "disruption_optimize riskProfile out rnd =
     (case out of
        Throws \<Rightarrow> disruption_alt_fallbacks riskProfile
      | Resolves resp \<Rightarrow>
          (case optimize_ok resp of
             None \<Rightarrow> disruption_alt_fallbacks riskProfile
           | Some routes \<Rightarrow> raise_primary (optimized_forEach rnd 0 routes riskProfile)))"

text \<open>
  The choice of the new active route:
  \<^verbatim>\<open>riskProfile[route.id]?.overall || 1.0\<close>, a stable ascending sort, the first entry
  that is not the primary route.
\<close>

definition route_risk :: "RiskProfile \<Rightarrow> Route \<Rightarrow> real" where
  "route_risk riskProfile route =
     or_num (map_option overall (map_of riskProfile (id_route route))) 1.0"

definition routeRisks :: "RiskProfile \<Rightarrow> (Route \<times> real) list" where
  "routeRisks riskProfile =
     sort_key snd (map (\<lambda>route. (route, route_risk riskProfile route)) allRoutes)"

definition bestAlternative :: "RiskProfile \<Rightarrow> Route" where
  "bestAlternative riskProfile =
     (case List.find (\<lambda>r. id_route (fst r) \<noteq> id_route PRIMARY_ROUTE) (routeRisks riskProfile) of
        Some r \<Rightarrow> fst r
      | None \<Rightarrow> ALTERNATIVE_ROUTES ! 0)"

record DisruptionResult =
  writes :: "RiskProfile list"
  activeRouteId_after :: string

text \<open>
  A run of the handler: the profiles passed to \<^verbatim>\<open>setRiskProfile\<close> in order, and the
  active route id it leaves.
\<close>

definition triggerDisruption ::
  "RiskProfile \<Rightarrow> string \<Rightarrow> AssessResponse option outcome \<Rightarrow> OptResponse option outcome
     \<Rightarrow> (nat \<Rightarrow> real) \<Rightarrow> DisruptionResult" where
  "triggerDisruption riskProfile activeRouteId assessPrimary optimize rnd =
     (let best = bestAlternative riskProfile
      in \<lparr>writes =
            (case disruption_primary riskProfile assessPrimary of
               None \<Rightarrow> []
             | Some w \<Rightarrow> [w])
            @ [disruption_optimize riskProfile optimize rnd],
          activeRouteId_after =
            (if id_route best \<noteq> activeRouteId then id_route best else activeRouteId)\<rparr>)"

text \<open>The profile the component holds once the handler has run: the last one set.\<close>

definition riskProfile_after :: "DisruptionResult \<Rightarrow> RiskProfile" where
  "riskProfile_after res = last (writes res)"

text \<open>
  The profile the outermost \<^verbatim>\<open>catch\<close> of the handler would write. Every call that
  can throw has its own \<^verbatim>\<open>try\<close>, so no outcome of the backend leads here.
\<close>

definition disruption_outer_catch :: "RiskProfile \<Rightarrow> RiskProfile" where
  "disruption_outer_catch riskProfile =
     AList.update (id_route (ALTERNATIVE_ROUTES ! 0)) disruption_alt0_fallback
       (AList.update (id_route PRIMARY_ROUTE) disruption_primary_fallback riskProfile)"


section \<open>Profiles the dashboard can hold\<close>

definition in_unit :: "real \<Rightarrow> bool" where
  "in_unit x = (0 \<le> x \<and> x \<le> 1)"

definition entry_in_unit :: "RiskEntry \<Rightarrow> bool" where
  "entry_in_unit e =
     (in_unit (overall e) \<and> in_unit (congestion (factors e))
      \<and> in_unit (tariffs (factors e)) \<and> in_unit (unrest (factors e)))"

definition profile_in_unit :: "RiskProfile \<Rightarrow> bool" where
  "profile_in_unit p = list_all (\<lambda>kv. entry_in_unit (snd kv)) p"

text \<open>Conditions on what the backend sends: every score of a response lies in \<open>[0,1]\<close>.\<close>

definition score_in_unit :: "real option \<Rightarrow> bool" where
  "score_in_unit x = (case x of None \<Rightarrow> True | Some v \<Rightarrow> in_unit v)"

definition assessment_in_unit :: "Assessment \<Rightarrow> bool" where
  "assessment_in_unit a =
     (score_in_unit (overall_risk_score a)
      \<and> (case factors_json a of
            None \<Rightarrow> True
          | Some f \<Rightarrow> score_in_unit (congestion_json f) \<and> score_in_unit (tariffs_json f)
                       \<and> score_in_unit (political_unrest f))
      \<and> (case breakdown a of
            None \<Rightarrow> True
          | Some b \<Rightarrow> score_in_unit (port_congestion b) \<and> score_in_unit (trade_news b)
                       \<and> score_in_unit (political b)))"

definition assess_in_unit :: "AssessResponse option outcome \<Rightarrow> bool" where
  "assess_in_unit out =
     (case out of
        Resolves (Some r) \<Rightarrow> (case assessment r of None \<Rightarrow> True | Some a \<Rightarrow> assessment_in_unit a)
      | _ \<Rightarrow> True)"

definition optroute_in_unit :: "OptRoute \<Rightarrow> bool" where
  "optroute_in_unit route =
     ((case metrics route of None \<Rightarrow> True | Some m \<Rightarrow> score_in_unit (risk_score m))
      \<and> (case risk_assessment route of None \<Rightarrow> True | Some a \<Rightarrow> assessment_in_unit a))"

text \<open>
  ... and the optimiser, asked for five alternatives, returns at most 17 routes (the
  default factor \<open>0.2 + index * 0.05\<close> of a route passes 1 from index 17 on).
\<close>

definition optimize_in_unit :: "OptResponse option outcome \<Rightarrow> bool" where
  "optimize_in_unit out =
     (case out of
        Resolves (Some r) \<Rightarrow>
          (case optimized_routes r of
             None \<Rightarrow> True
           | Some routes \<Rightarrow> length routes \<le> 17 \<and> list_all optroute_in_unit routes)
      | _ \<Rightarrow> True)"

text \<open>
  Every entry under a key other than the primary route's has an overall risk of at least
  0.1.
\<close>

definition at_least_tenth :: "real \<Rightarrow> bool" where
  "at_least_tenth x = (0.1 \<le> x)"

definition alternatives_positive :: "RiskProfile \<Rightarrow> bool" where
  "alternatives_positive p =
     list_all (\<lambda>kv. fst kv = id_route PRIMARY_ROUTE \<or> at_least_tenth (overall (snd kv))) p"

definition any_response :: "'a \<Rightarrow> bool" where
  "any_response out = True"

text \<open>
  Every profile the dashboard ever stores, for backends whose assessment responses
  satisfy \<open>A\<close> and whose optimisation responses satisfy \<open>B\<close>. A handler starts from a
  profile that was stored before (the one its closure holds), so the rules also cover
  runs of handlers that overlap.
\<close>

inductive stored ::
  "(AssessResponse option outcome \<Rightarrow> bool) \<Rightarrow> (OptResponse option outcome \<Rightarrow> bool)
     \<Rightarrow> RiskProfile \<Rightarrow> bool"
  for A :: "AssessResponse option outcome \<Rightarrow> bool" and B :: "OptResponse option outcome \<Rightarrow> bool"
where
  stored_initial: "stored A B []"
| stored_fetch: "(\<And>k. A (assess k)) \<Longrightarrow> stored A B (fetchInitialData health assess rnd)"
| stored_fetch_default: "stored A B initial_default_profile"
| stored_poll:
    "stored A B p \<Longrightarrow> (\<And>k. A (assess k)) \<Longrightarrow> poll p riskData assess rnd = Some p'
      \<Longrightarrow> stored A B p'"
| stored_disruption:
    "stored A B p \<Longrightarrow> A assessPrimary \<Longrightarrow> B optimize
      \<Longrightarrow> w \<in> set (writes (triggerDisruption p activeRouteId assessPrimary optimize rnd))
      \<Longrightarrow> stored A B w"
| stored_disruption_catch: "stored A B p \<Longrightarrow> stored A B (disruption_outer_catch p)"


section \<open>Example backends\<close>

text \<open>Every assessment request throws.\<close>

definition assess_unreachable :: "string \<Rightarrow> AssessResponse option outcome" where
  "assess_unreachable k = Throws"

text \<open>Every assessment succeeds with the same scores.\<close>

definition assess_constant :: "real \<Rightarrow> string \<Rightarrow> AssessResponse option outcome" where
  "assess_constant v k =
     Resolves (Some \<lparr>success_assess = True,
                     assessment = Some \<lparr>overall_risk_score = Some v, factors_json = None,
                                        breakdown = None\<rparr>\<rparr>)"

definition no_jitter :: "'a \<Rightarrow> real" where
  "no_jitter k = 0"

definition half_jitter :: "'a \<Rightarrow> real" where
  "half_jitter k = 1 / 2"

text \<open>
  The profile after a load in which the health check passes and every assessment request
  throws.
\<close>

definition profile_after_failed_load :: RiskProfile where
  "profile_after_failed_load = fetchInitialData (Resolves ()) assess_unreachable no_jitter"


section \<open>Results\<close>

subsection \<open>Auxiliary facts\<close>

lemma find_Some_member: "List.find P xs = Some x \<Longrightarrow> x \<in> set xs \<and> P x"
  by (induction xs) (auto split: if_splits)

lemma id_route_PRIMARY: "id_route PRIMARY_ROUTE = ''TW-LA-DIRECT''"
  by (simp add: PRIMARY_ROUTE_def)

lemma id_route_ALTERNATIVES:
  "map id_route ALTERNATIVE_ROUTES = [''TW-VN-LA'', ''TW-JP-LA'', ''TW-SG-LA'', ''TW-SH-LA'']"
  by (simp add: ALTERNATIVE_ROUTES_def)

lemma id_route_allRoutes:
  "map id_route allRoutes = [''TW-LA-DIRECT'', ''TW-VN-LA'', ''TW-JP-LA'', ''TW-SG-LA'', ''TW-SH-LA'']"
  by (simp add: allRoutes_def id_route_PRIMARY id_route_ALTERNATIVES)

lemma distinct_id_route_allRoutes: "distinct (map id_route allRoutes)"
  unfolding id_route_allRoutes by simp

lemma distinct_id_route_ALTERNATIVES: "distinct (map id_route ALTERNATIVE_ROUTES)"
  unfolding id_route_ALTERNATIVES by simp

lemma inj_on_id_route: "inj_on id_route (set allRoutes)"
  using distinct_id_route_allRoutes by (simp add: distinct_map)

lemma length_ALTERNATIVE_ROUTES: "length ALTERNATIVE_ROUTES = 4"
  by (simp add: ALTERNATIVE_ROUTES_def)

lemma alternative_not_primary:
  assumes "r \<in> set ALTERNATIVE_ROUTES"
  shows "id_route r \<noteq> id_route PRIMARY_ROUTE"
proof -
  from assms have "id_route r \<in> set (map id_route ALTERNATIVE_ROUTES)"
    by simp
  then show ?thesis
    unfolding id_route_ALTERNATIVES id_route_PRIMARY by auto
qed

lemma clamp_range:
  fixes lo hi x :: real
  shows "lo \<le> hi \<Longrightarrow> lo \<le> min hi (max lo x) \<and> min hi (max lo x) \<le> hi"
  by (auto simp: min_def max_def)

text \<open>On a list without repetitions \<^verbatim>\<open>indexOf\<close> gives the position.\<close>

lemma indexOf_from_nth:
  "distinct xs \<Longrightarrow> i < length xs \<Longrightarrow> indexOf_from k xs (xs ! i) = k + int i"
proof (induction xs arbitrary: i k)
  case Nil
  then show ?case by simp
next
  case (Cons x xs)
  show ?case
  proof (cases i)
    case 0
    then show ?thesis by simp
  next
    case (Suc j)
    with Cons.prems have j: "j < length xs" and ne: "x \<noteq> xs ! j"
      by auto
    from Cons.prems have "distinct xs"
      by simp
    from Cons.IH [OF this j, of "k + 1"] Suc ne show ?thesis
      by simp
  qed
qed

lemma distinct_ALTERNATIVE_ROUTES: "distinct ALTERNATIVE_ROUTES"
  using distinct_id_route_ALTERNATIVES by (rule distinct_map [THEN iffD1, THEN conjunct1])

lemma indexOf_ALTERNATIVE_ROUTES:
  "i < length ALTERNATIVE_ROUTES \<Longrightarrow> indexOf ALTERNATIVE_ROUTES (ALTERNATIVE_ROUTES ! i) = int i"
  unfolding indexOf_def using indexOf_from_nth [OF distinct_ALTERNATIVE_ROUTES, of i 0] by simp

text \<open>Writing one entry per element of a list whose keys differ.\<close>

lemma map_of_foldl_update:
  assumes "distinct (map key rs)" and "r \<in> set rs"
  shows "map_of (foldl (\<lambda>al x. AList.update (key x) (val x) al) al0 rs) (key r) = Some (val r)"
  using assms
proof (induction rs rule: rev_induct)
  case Nil
  then show ?case by simp
next
  case (snoc x xs)
  show ?case
  proof (cases "r = x")
    case True
    then show ?thesis
      by (simp add: update_conv')
  next
    case False
    with snoc.prems have r: "r \<in> set xs" and d: "distinct (map key xs)" and "key x \<notin> key ` set xs"
      by auto
    then have "key x \<noteq> key r"
      by auto
    with snoc.IH [OF d r] show ?thesis
      by (simp add: update_conv')
  qed
qed

lemma map_of_foldl_update_other:
  assumes "k \<notin> key ` set rs"
  shows "map_of (foldl (\<lambda>al x. AList.update (key x) (val x) al) al0 rs) k = map_of al0 k"
  using assms by (induction rs rule: rev_induct) (auto simp: update_conv')

lemma map_of_ensure_entry:
  "map_of updated k = Some e \<Longrightarrow> map_of (ensure_entry updated route) k = Some e"
  by (cases "map_of updated (id_route route)")
     (auto simp: ensure_entry_def update_conv' Let_def)

lemma map_of_foldl_ensure_entry:
  "map_of updated k = Some e \<Longrightarrow> map_of (foldl ensure_entry updated routes) k = Some e"
  by (induction routes arbitrary: updated) (simp_all add: map_of_ensure_entry)

lemma indexOf_ALTERNATIVE_ROUTES_range:
  assumes "r \<in> set ALTERNATIVE_ROUTES"
  shows "0 \<le> indexOf ALTERNATIVE_ROUTES r \<and> indexOf ALTERNATIVE_ROUTES r \<le> 3"
proof -
  from assms obtain i where "i < length ALTERNATIVE_ROUTES" "r = ALTERNATIVE_ROUTES ! i"
    by (auto simp: in_set_conv_nth)
  with indexOf_ALTERNATIVE_ROUTES [of i] show ?thesis
    by (simp add: length_ALTERNATIVE_ROUTES)
qed

lemma ensure_entry_present:
  "map_of updated (id_route route) \<noteq> None \<Longrightarrow> ensure_entry updated route = updated"
  by (auto simp: ensure_entry_def)

lemma foldl_ensure_entry_present:
  "(\<And>r. r \<in> set routes \<Longrightarrow> map_of updated (id_route r) \<noteq> None)
     \<Longrightarrow> foldl ensure_entry updated routes = updated"
  by (induction routes) (simp_all add: ensure_entry_present)

lemma fetchInitialData_assessed:
  "fetchInitialData (Resolves u) assess rnd =
     foldl (\<lambda>updated route. AList.update (id_route route) (initial_alt_entry assess rnd route) updated)
       [(id_route PRIMARY_ROUTE, initial_primary_entry (assess (id_route PRIMARY_ROUTE)))]
       ALTERNATIVE_ROUTES"
proof -
  let ?assessed = "foldl (\<lambda>updated route. AList.update (id_route route) (initial_alt_entry assess rnd route) updated)
       [(id_route PRIMARY_ROUTE, initial_primary_entry (assess (id_route PRIMARY_ROUTE)))]
       ALTERNATIVE_ROUTES"
  have "map_of ?assessed (id_route r) \<noteq> None" if "r \<in> set allRoutes" for r
  proof (cases "r \<in> set ALTERNATIVE_ROUTES")
    case True
    with distinct_id_route_ALTERNATIVES show ?thesis
      by (simp add: map_of_foldl_update)
  next
    case False
    with that have r: "r = PRIMARY_ROUTE"
      by (simp add: allRoutes_def)
    have "id_route PRIMARY_ROUTE \<notin> id_route ` set ALTERNATIVE_ROUTES"
      using alternative_not_primary by force
    then show ?thesis
      unfolding r by (simp add: map_of_foldl_update_other)
  qed
  then have "foldl ensure_entry ?assessed allRoutes = ?assessed"
    by (rule foldl_ensure_entry_present)
  then show ?thesis
    by (simp add: fetchInitialData_def)
qed

lemma stored_profile_after_failed_load:
  "stored any_response any_response profile_after_failed_load"
  unfolding profile_after_failed_load_def
  by (rule stored_fetch) (simp add: any_response_def)


subsection \<open>The random disruption event\<close>

text \<open>
  C8. For every value \<open>r\<close> of the random source with \<open>0 \<le> r < 1\<close>,
  \<^verbatim>\<open>getRandomDisruptionEvent\<close> returns the element of the disruption list at index
  \<open>\<lfloor>r * 8\<rfloor>\<close>; the list has eight elements and the index is within its bounds.
\<close>

theorem getRandomDisruptionEvent_defined:
  assumes "0 \<le> r" and "r < 1"
  shows "length DISRUPTION_EVENTS = 8
       \<and> nat \<lfloor>r * 8\<rfloor> < length DISRUPTION_EVENTS
       \<and> getRandomDisruptionEvent r = Some (DISRUPTION_EVENTS ! nat \<lfloor>r * 8\<rfloor>)"
proof -
  have len: "length DISRUPTION_EVENTS = 8"
    by (simp add: DISRUPTION_EVENTS_def)
  from assms have lo: "0 \<le> \<lfloor>r * 8\<rfloor>"
    by simp
  from assms have "r * 8 < 8"
    by simp
  then have hi: "\<lfloor>r * 8\<rfloor> < 8"
    by (simp add: floor_less_iff)
  from lo hi have idx: "nat \<lfloor>r * 8\<rfloor> < 8"
    by linarith
  have "js_index DISRUPTION_EVENTS \<lfloor>r * 8\<rfloor> = Some (DISRUPTION_EVENTS ! nat \<lfloor>r * 8\<rfloor>)"
    unfolding js_index_def len using lo hi by simp
  then have "getRandomDisruptionEvent r = Some (DISRUPTION_EVENTS ! nat \<lfloor>r * 8\<rfloor>)"
    by (simp add: getRandomDisruptionEvent_def len)
  with len idx show ?thesis
    by simp
qed

theorem getRandomDisruptionEvent_defined_witness:
  "getRandomDisruptionEvent (1 / 2) = Some (DISRUPTION_EVENTS ! 4)"
  using getRandomDisruptionEvent_defined [of "1 / 2"] by simp


subsection \<open>The event history\<close>

text \<open>
  C6. The event history is append-only. A call of \<^verbatim>\<open>addEvent\<close> puts exactly one new
  entry, the given message with the clock reading, at the end of the history and leaves
  the entries before it as they were, in place and order; every other operation of the
  shell leaves the history as it is, so after any sequence of operations the earlier
  history is still the front part of the later one; rendering the history does not change
  it; and the history starts empty with the component (it is component state, nothing
  reads it back from a store).
\<close>

theorem eventHistory_append_only:
  "eventHistory (app_step s (AddEvent msg now)) = eventHistory s @ [\<lparr>message = msg, timestamp = now\<rparr>]
 \<and> eventHistory (app_step s (Navigate p)) = eventHistory s
 \<and> eventHistory (app_step s (SetTheme t)) = eventHistory s
 \<and> eventHistory (app_step s (SetUserConfig c)) = eventHistory s
 \<and> prefix (eventHistory s) (eventHistory (foldl app_step s acts))
 \<and> rev (history_rendered (eventHistory s)) = eventHistory s
 \<and> eventHistory initial_app = []"
proof -
  have step: "prefix (eventHistory s') (eventHistory (app_step s' a))" for s' a
    by (cases a) (simp_all add: addEvent_def)
  have run: "prefix (eventHistory s') (eventHistory (foldl app_step s' as))" for s' as
  proof (induction as arbitrary: s')
    case Nil
    show ?case by simp
  next
    case (Cons a as)
    have "prefix (eventHistory s') (eventHistory (app_step s' a))"
      by (rule step)
    moreover have "prefix (eventHistory (app_step s' a)) (eventHistory (foldl app_step (app_step s' a) as))"
      by (rule Cons.IH)
    ultimately show ?case
      by (simp add: prefix_order.order_trans)
  qed
  show ?thesis
    using run [of s acts] by (simp add: addEvent_def history_rendered_def initial_app_def)
qed


subsection \<open>The shipment identifier\<close>

text \<open>
  C10. For every user configuration that is present, the shipment identifier computed by
  \<^verbatim>\<open>personalizedShipment\<close> of the dashboard page and the one shown by the history page
  are equal: both are \<^verbatim>\<open>ARK-SC-\<close> followed by the first three characters of the
  configured product name in upper case.
\<close>

theorem shipment_id_agrees:
  assumes "cfg = Some c"
  shows "id_shipment (personalizedShipment cfg) = shipmentId cfg
       \<and> shipmentId cfg = ''ARK-SC-'' @ toUpperCase (take 3 (product c))"
  using assms by (simp add: personalizedShipment_def shipmentId_def slice0_def Let_def)

theorem shipment_id_agrees_witness:
  "id_shipment (personalizedShipment
      (Some \<lparr>product = ''semiconductors'', origin = ''Port of Taipei, Taiwan'',
             destination = ''Port of Los Angeles, USA''\<rparr>)) = ''ARK-SC-SEM''
 \<and> shipmentId
      (Some \<lparr>product = ''semiconductors'', origin = ''Port of Taipei, Taiwan'',
             destination = ''Port of Los Angeles, USA''\<rparr>) = ''ARK-SC-SEM''"
proof -
  have up: "toUpperCase (take 3 ''semiconductors'') = ''SEM''"
    by code_simp
  show ?thesis
    using shipment_id_agrees [of "Some \<lparr>product = ''semiconductors'', origin = ''Port of Taipei, Taiwan'',
             destination = ''Port of Los Angeles, USA''\<rparr>" "\<lparr>product = ''semiconductors'', origin = ''Port of Taipei, Taiwan'',
             destination = ''Port of Los Angeles, USA''\<rparr>"] up
    by simp
qed


subsection \<open>The active route\<close>

text \<open>
  C9. For every string value of \<^verbatim>\<open>activeRouteId\<close> the derived \<^verbatim>\<open>activeRoute\<close> is a
  defined route: when some element of \<^verbatim>\<open>allRoutes\<close> has that id it is that element
  (there is only one), and otherwise it is \<^verbatim>\<open>PRIMARY_ROUTE\<close>.
\<close>

theorem activeRoute_defined:
  "(\<exists>r. activeRoute aid = Some r)
 \<and> (aid \<in> set (map id_route allRoutes) \<longrightarrow>
      (\<exists>r \<in> set allRoutes. id_route r = aid \<and> activeRoute aid = Some r
         \<and> (\<forall>r' \<in> set allRoutes. id_route r' = aid \<longrightarrow> r' = r)))
 \<and> (aid \<notin> set (map id_route allRoutes) \<longrightarrow> activeRoute aid = Some PRIMARY_ROUTE)"
proof (cases "List.find (\<lambda>r. id_route r = aid) allRoutes")
  case None
  then have "aid \<notin> set (map id_route allRoutes)"
    by (auto simp: find_None_iff)
  with None show ?thesis
    by (simp add: activeRoute_def)
next
  case (Some r)
  from find_Some_member [OF Some] have r: "r \<in> set allRoutes" "id_route r = aid"
    by simp_all
  have uniq: "\<forall>r' \<in> set allRoutes. id_route r' = aid \<longrightarrow> r' = r"
    using inj_onD [OF inj_on_id_route] r by blast
  from Some have act: "activeRoute aid = Some r"
    by (simp add: activeRoute_def)
  from r have mem: "aid \<in> set (map id_route allRoutes)"
    by force
  from r uniq act have "\<exists>r \<in> set allRoutes. id_route r = aid \<and> activeRoute aid = Some r
         \<and> (\<forall>r' \<in> set allRoutes. id_route r' = aid \<longrightarrow> r' = r)"
    by blast
  with act mem show ?thesis
    by simp
qed

theorem activeRoute_defined_witness:
  "activeRoute ''TW-JP-LA'' = Some (ALTERNATIVE_ROUTES ! 1)
 \<and> activeRoute ''NO-SUCH-ROUTE'' = Some PRIMARY_ROUTE"
proof -
  have a: "ALTERNATIVE_ROUTES ! 1 \<in> set allRoutes"
    by (simp add: allRoutes_def ALTERNATIVE_ROUTES_def)
  have b: "id_route (ALTERNATIVE_ROUTES ! 1) = ''TW-JP-LA''"
    by (simp add: ALTERNATIVE_ROUTES_def)
  have "''TW-JP-LA'' \<in> set (map id_route allRoutes)"
    unfolding id_route_allRoutes by simp
  with activeRoute_defined [of "''TW-JP-LA''"]
  obtain r where r: "activeRoute ''TW-JP-LA'' = Some r"
     "\<forall>r' \<in> set allRoutes. id_route r' = ''TW-JP-LA'' \<longrightarrow> r' = r"
    by blast
  from r(2) a b have "ALTERNATIVE_ROUTES ! 1 = r"
    by blast
  moreover have "''NO-SUCH-ROUTE'' \<notin> set (map id_route allRoutes)"
    unfolding id_route_allRoutes by simp
  with activeRoute_defined [of "''NO-SUCH-ROUTE''"]
  have "activeRoute ''NO-SUCH-ROUTE'' = Some PRIMARY_ROUTE"
    by blast
  ultimately show ?thesis
    using r(1) by simp
qed


subsection \<open>The canned recommendation\<close>

text \<open>
  C5. For every prompt, when the backend agent query fails (it throws, or it returns no
  successful response) and no Perplexity API key is configured,
  \<^verbatim>\<open>getPerplexityAnalysis\<close> raises no error and returns the fixed sentence that
  recommends the alternative route with the 32% risk score.
\<close>

theorem getPerplexityAnalysis_fallback:
  assumes "agent_failed (queryAgent prompt)" and "\<not> truthy_str PERPLEXITY_API_KEY"
  shows "getPerplexityAnalysis PERPLEXITY_API_KEY queryAgent fetch_direct prompt
           = Inr ''Based on the analysis, I recommend selecting the alternative route with the lowest risk score (32%). This route provides the best balance between risk reduction and minimal time impact.''"
proof -
  have "getPerplexityAnalysis PERPLEXITY_API_KEY queryAgent fetch_direct prompt = Inr canned_recommendation"
    using assms
    by (auto simp: getPerplexityAnalysis_def agent_failed_def split: outcome.splits option.splits)
  then show ?thesis
    by (simp only: canned_recommendation_def)
qed

theorem getPerplexityAnalysis_fallback_witness:
  "getPerplexityAnalysis None (\<lambda>_. Throws) (\<lambda>_. Throws) ''Which route?'' = Inr canned_recommendation
 \<and> getPerplexityAnalysis (Some [])
      (\<lambda>_. Resolves (Some \<lparr>success_agent = False, response_agent = Some ''busy''\<rparr>))
      (\<lambda>_. Throws) ''Which route?'' = Inr canned_recommendation"
proof -
  have c: "\<not> truthy_str None" "\<not> truthy_str (Some [])"
    by (simp_all add: truthy_str_def)
  have "getPerplexityAnalysis None (\<lambda>_. Throws) (\<lambda>_. Throws) ''Which route?'' = Inr canned_recommendation"
    unfolding canned_recommendation_def
    by (rule getPerplexityAnalysis_fallback) (simp_all add: agent_failed_def c)
  moreover have "getPerplexityAnalysis (Some [])
      (\<lambda>_. Resolves (Some \<lparr>success_agent = False, response_agent = Some ''busy''\<rparr>))
      (\<lambda>_. Throws) ''Which route?'' = Inr canned_recommendation"
    unfolding canned_recommendation_def
    by (rule getPerplexityAnalysis_fallback) (simp_all add: agent_failed_def c)
  ultimately show ?thesis
    by (rule conjI)
qed


subsection \<open>The initial assessment of an alternative route\<close>

text \<open>
  C4. During the initial assessment, when the backend assessment for the alternative route
  at index \<open>i\<close> succeeds, the overall risk stored for that route is
  \<open>min 0.85 (max 0.2 (max 0.15 s + i * 0.06 + j))\<close>, where \<open>s\<close> is the backend's
  \<^verbatim>\<open>overall_risk_score\<close> (0.2 when it is absent or zero) and \<open>j\<close> is the random jitter,
  \<open>0 \<le> j < 0.04\<close>; the value lies in \<open>[0.2, 0.85]\<close>.
\<close>

theorem initial_alternative_overall:
  assumes i: "i < length ALTERNATIVE_ROUTES"
    and resp: "assess (id_route (ALTERNATIVE_ROUTES ! i)) = Resolves (Some resp)"
    and ok: "success_assess resp" "assessment resp = Some a"
    and rnd: "0 \<le> rnd (id_route (ALTERNATIVE_ROUTES ! i))" "rnd (id_route (ALTERNATIVE_ROUTES ! i)) < 1"
  shows "\<exists>e s j.
           map_of (fetchInitialData (Resolves ()) assess rnd) (id_route (ALTERNATIVE_ROUTES ! i)) = Some e
         \<and> s = (case overall_risk_score a of None \<Rightarrow> 0.2 | Some v \<Rightarrow> if v = 0 then 0.2 else v)
         \<and> j = rnd (id_route (ALTERNATIVE_ROUTES ! i)) * 0.04 \<and> 0 \<le> j \<and> j < 0.04
         \<and> overall e = min 0.85 (max 0.2 (max 0.15 s + real i * 0.06 + j))
         \<and> 0.2 \<le> overall e \<and> overall e \<le> 0.85"
proof -
  let ?r = "ALTERNATIVE_ROUTES ! i"
  let ?e = "initial_alt_entry assess rnd ?r"
  let ?j = "rnd (id_route ?r) * 0.04"
  from i have mem: "?r \<in> set ALTERNATIVE_ROUTES"
    by simp
  have "map_of (foldl (\<lambda>updated route. AList.update (id_route route) (initial_alt_entry assess rnd route) updated)
                  [(id_route PRIMARY_ROUTE, initial_primary_entry (assess (id_route PRIMARY_ROUTE)))]
                  ALTERNATIVE_ROUTES) (id_route ?r) = Some ?e"
    using distinct_id_route_ALTERNATIVES mem by (rule map_of_foldl_update)
  then have stored: "map_of (fetchInitialData (Resolves ()) assess rnd) (id_route ?r) = Some ?e"
    by (simp add: fetchInitialData_def map_of_foldl_ensure_entry)
  have entry: "?e = initial_alt_assessed (int i) (rnd (id_route ?r)) a"
    using resp ok by (simp add: initial_alt_entry_def assess_ok_def indexOf_ALTERNATIVE_ROUTES [OF i])
  let ?s = "case overall_risk_score a of None \<Rightarrow> 0.2 | Some v \<Rightarrow> if v = 0 then 0.2 else v"
  have s: "or_num (overall_risk_score a) 0.2 = ?s"
    by (cases "overall_risk_score a") (simp_all add: or_num_def)
  have "overall ?e = min 0.85 (max 0.2 (max 0.15 (or_num (overall_risk_score a) 0.2) + real i * 0.06 + ?j))"
    unfolding entry by (simp add: initial_alt_assessed_def Let_def)
  then have ov: "overall ?e = min 0.85 (max 0.2 (max 0.15 ?s + real i * 0.06 + ?j))"
    by (simp only: s)
  from rnd have j: "0 \<le> ?j" "?j < 0.04"
    by simp_all
  have range: "0.2 \<le> overall ?e \<and> overall ?e \<le> 0.85"
    unfolding ov by (rule clamp_range) simp
  from stored ov j range
  have "map_of (fetchInitialData (Resolves ()) assess rnd) (id_route ?r) = Some ?e
         \<and> ?s = ?s \<and> ?j = ?j \<and> 0 \<le> ?j \<and> ?j < 0.04
         \<and> overall ?e = min 0.85 (max 0.2 (max 0.15 ?s + real i * 0.06 + ?j))
         \<and> 0.2 \<le> overall ?e \<and> overall ?e \<le> 0.85"
    by blast
  then show ?thesis
    by blast
qed

theorem initial_alternative_overall_witness:
  "\<exists>e. map_of (fetchInitialData (Resolves ()) (assess_constant (1 / 2)) half_jitter) ''TW-JP-LA'' = Some e
      \<and> overall e = 29 / 50"
proof -
  have i: "1 < length ALTERNATIVE_ROUTES"
    by (simp add: length_ALTERNATIVE_ROUTES)
  have k: "id_route (ALTERNATIVE_ROUTES ! 1) = ''TW-JP-LA''"
    by (simp add: ALTERNATIVE_ROUTES_def)
  have resp: "assess_constant (1 / 2) (id_route (ALTERNATIVE_ROUTES ! 1))
        = Resolves (Some \<lparr>success_assess = True,
                     assessment = Some \<lparr>overall_risk_score = Some (1 / 2), factors_json = None,
                                        breakdown = None\<rparr>\<rparr>)"
    by (simp add: assess_constant_def)
  have rnd: "0 \<le> (half_jitter (id_route (ALTERNATIVE_ROUTES ! 1)) :: real)"
            "(half_jitter (id_route (ALTERNATIVE_ROUTES ! 1)) :: real) < 1"
    by (simp_all add: half_jitter_def)
  from initial_alternative_overall
         [where i = 1 and assess = "assess_constant (1 / 2)" and rnd = half_jitter, OF i resp _ _ rnd]
  obtain e where
    "map_of (fetchInitialData (Resolves ()) (assess_constant (1 / 2)) half_jitter)
        (id_route (ALTERNATIVE_ROUTES ! 1)) = Some e"
    "overall e = min 0.85 (max 0.2 (max 0.15 (1 / 2) + real 1 * 0.06 + half_jitter (id_route (ALTERNATIVE_ROUTES ! 1)) * 0.04))"
    by auto
  then show ?thesis
    unfolding k by (auto simp: half_jitter_def)
qed


subsection \<open>The route chosen by the disruption handler\<close>

lemma routeRisks_set:
  "set (routeRisks p) = (\<lambda>route. (route, route_risk p route)) ` set allRoutes"
  by (simp add: routeRisks_def)

lemma routeRisks_sorted: "sorted (map snd (routeRisks p))"
  unfolding routeRisks_def by (rule sorted_sort_key)

lemma routeRisks_length: "length (routeRisks p) = 5"
  by (simp add: routeRisks_def allRoutes_def length_ALTERNATIVE_ROUTES)

lemma activeRouteId_after_eq:
  "activeRouteId_after (triggerDisruption p activeRouteId assessPrimary optimize rnd)
     = id_route (bestAlternative p)"
  by (simp add: triggerDisruption_def Let_def)

text \<open>
  Whatever the backend sends, the overall risk the dashboard stores for an alternative route
  is at least 0.1: it is a constant, or it has been clamped from below.
\<close>

lemma alternatives_positive_update:
  "alternatives_positive p \<Longrightarrow> k = id_route PRIMARY_ROUTE \<or> at_least_tenth (overall e)
     \<Longrightarrow> alternatives_positive (AList.update k e p)"
  by (induction p) (auto simp: alternatives_positive_def)

lemma alternatives_positive_foldl_update:
  assumes "alternatives_positive p" and "\<And>r. r \<in> set rs \<Longrightarrow> at_least_tenth (overall (val r))"
  shows "alternatives_positive (foldl (\<lambda>al r. AList.update (key r) (val r) al) p rs)"
  using assms by (induction rs arbitrary: p) (simp_all add: alternatives_positive_update)

lemma clamp_lower:
  fixes lo hi x c :: real
  shows "c \<le> lo \<Longrightarrow> c \<le> hi \<Longrightarrow> c \<le> min hi (max lo x)"
  by (auto simp: min_def max_def)

lemma initial_alt_fallback_overall:
  "0 \<le> idx \<Longrightarrow> at_least_tenth (overall (initial_alt_fallback idx))"
  by (simp add: initial_alt_fallback_def at_least_tenth_def)

lemma initial_alt_assessed_overall: "at_least_tenth (overall (initial_alt_assessed idx random a))"
  unfolding initial_alt_assessed_def Let_def RiskEntry.select_convs at_least_tenth_def
  by (rule clamp_lower) simp_all

lemma initial_alt_entry_overall:
  assumes "r \<in> set ALTERNATIVE_ROUTES"
  shows "at_least_tenth (overall (initial_alt_entry assess rnd r))"
  using indexOf_ALTERNATIVE_ROUTES_range [OF assms]
  by (auto simp: initial_alt_entry_def Let_def initial_alt_fallback_overall initial_alt_assessed_overall
           split: outcome.splits option.splits)

lemma initial_mock_profile_positive: "alternatives_positive initial_mock_profile"
  by code_simp

lemma initial_default_profile_positive: "alternatives_positive initial_default_profile"
  by code_simp

lemma fetchInitialData_positive: "alternatives_positive (fetchInitialData health assess rnd)"
proof (cases health)
  case Throws
  then show ?thesis
    by (simp add: fetchInitialData_def initial_mock_profile_positive)
next
  case (Resolves u)
  have "alternatives_positive
          [(id_route PRIMARY_ROUTE, initial_primary_entry (assess (id_route PRIMARY_ROUTE)))]"
    by (simp add: alternatives_positive_def)
  then show ?thesis
    unfolding Resolves fetchInitialData_assessed
    by (rule alternatives_positive_foldl_update) (rule initial_alt_entry_overall)
qed

lemma poll_primary_positive:
  "alternatives_positive p \<Longrightarrow> alternatives_positive (poll_primary p out)"
  by (auto simp: poll_primary_def alternatives_positive_update split: outcome.splits option.splits)

lemma poll_alt_assessed_overall: "at_least_tenth (overall (poll_alt_assessed idx random a))"
  unfolding poll_alt_assessed_def Let_def RiskEntry.select_convs at_least_tenth_def
  by (rule clamp_lower) simp_all

lemma poll_alt_positive:
  "alternatives_positive p \<Longrightarrow> alternatives_positive (poll_alt assess rnd p r)"
  by (auto simp: poll_alt_def alternatives_positive_update poll_alt_assessed_overall
           split: outcome.splits option.splits)

lemma foldl_poll_alt_positive:
  "alternatives_positive p \<Longrightarrow> alternatives_positive (foldl (poll_alt assess rnd) p rs)"
  by (induction rs arbitrary: p) (simp_all add: poll_alt_positive)

lemma poll_positive:
  assumes "alternatives_positive p" and "poll p riskData assess rnd = Some p'"
  shows "alternatives_positive p'"
proof -
  from assms(2) have "p' = foldl (poll_alt assess rnd)
                             (poll_primary p (assess (id_route PRIMARY_ROUTE))) ALTERNATIVE_ROUTES"
    by (auto simp: poll_def split: outcome.splits)
  with assms(1) show ?thesis
    by (simp add: foldl_poll_alt_positive poll_primary_positive)
qed

lemma disruption_primary_positive:
  "alternatives_positive p \<Longrightarrow> disruption_primary p out = Some w \<Longrightarrow> alternatives_positive w"
  by (auto simp: disruption_primary_def alternatives_positive_update split: outcome.splits option.splits)

lemma optimized_entry_overall: "at_least_tenth (overall (optimized_entry index random route))"
  unfolding optimized_entry_def Let_def RiskEntry.select_convs at_least_tenth_def
  by (rule clamp_lower) simp_all

lemma optimized_forEach_positive:
  "alternatives_positive updated \<Longrightarrow> alternatives_positive (optimized_forEach rnd index routes updated)"
  by (induction routes arbitrary: index updated)
     (simp_all add: alternatives_positive_update optimized_entry_overall)

lemma raise_primary_positive:
  "alternatives_positive p \<Longrightarrow> alternatives_positive (raise_primary p)"
  by (auto simp: raise_primary_def alternatives_positive_update split: option.splits)

lemma disruption_alt_fallbacks_positive:
  "alternatives_positive p \<Longrightarrow> alternatives_positive (disruption_alt_fallbacks p)"
  by (simp add: disruption_alt_fallbacks_def alternatives_positive_update
        disruption_alt0_fallback_def disruption_alt1_fallback_def at_least_tenth_def)

lemma disruption_optimize_positive:
  "alternatives_positive p \<Longrightarrow> alternatives_positive (disruption_optimize p out rnd)"
  by (auto simp: disruption_optimize_def disruption_alt_fallbacks_positive raise_primary_positive
                 optimized_forEach_positive
           split: outcome.splits option.splits)

lemma triggerDisruption_writes_positive:
  assumes "alternatives_positive p"
    and "w \<in> set (writes (triggerDisruption p activeRouteId assessPrimary optimize rnd))"
  shows "alternatives_positive w"
proof -
  from assms(2) consider "disruption_primary p assessPrimary = Some w"
    | "w = disruption_optimize p optimize rnd"
    by (auto simp: triggerDisruption_def Let_def split: option.splits)
  then show ?thesis
    using assms(1) by cases (simp_all add: disruption_primary_positive disruption_optimize_positive)
qed

lemma disruption_outer_catch_positive:
  "alternatives_positive p \<Longrightarrow> alternatives_positive (disruption_outer_catch p)"
  by (simp add: disruption_outer_catch_def alternatives_positive_update disruption_alt0_fallback_def
        at_least_tenth_def)

lemma stored_alternatives_positive:
  assumes "stored A B p"
  shows "alternatives_positive p"
  using assms
proof (induction rule: stored.induct)
  case stored_initial
  show ?case
    by (simp add: alternatives_positive_def)
next
  case (stored_fetch assess health rnd)
  show ?case
    by (rule fetchInitialData_positive)
next
  case stored_fetch_default
  show ?case
    by (rule initial_default_profile_positive)
next
  case (stored_poll p assess riskData rnd p')
  from stored_poll.IH stored_poll.hyps(3) show ?case
    by (rule poll_positive)
next
  case (stored_disruption p assessPrimary optimize w activeRouteId rnd)
  from stored_disruption.IH stored_disruption.hyps(4) show ?case
    by (rule triggerDisruption_writes_positive)
next
  case (stored_disruption_catch p)
  then show ?case
    by (simp add: disruption_outer_catch_positive)
qed

lemma stored_route_risk_alternative:
  assumes "stored A B p" and "a \<in> set ALTERNATIVE_ROUTES" and "map_of p (id_route a) = Some e"
  shows "route_risk p a = overall e"
proof -
  from assms(3) have "(id_route a, e) \<in> set p"
    by (rule map_of_SomeD)
  moreover from assms(1) have "alternatives_positive p"
    by (rule stored_alternatives_positive)
  ultimately have "id_route a = id_route PRIMARY_ROUTE \<or> at_least_tenth (overall e)"
    by (force simp: alternatives_positive_def list_all_iff)
  with alternative_not_primary [OF assms(2)] have "overall e \<noteq> 0"
    by (auto simp: at_least_tenth_def)
  with assms(3) show ?thesis
    by (simp add: route_risk_def or_num_def)
qed

text \<open>
  C1. For every risk profile the handler holds when it runs, \<^verbatim>\<open>triggerDisruption\<close> sorts
  the five routes (the primary and the four alternatives) ascending by their overall risk,
  a route without a recorded (non-zero) risk counting as 1.0, and makes the first route in
  that order whose id is not the primary route's the active route; that route is an
  alternative route whose risk value is lowest among the alternatives. In every profile the
  dashboard can hold, the risk value of an alternative route with a recorded risk is the
  recorded overall risk.
\<close>

theorem triggerDisruption_selects_lowest_risk_alternative:
  "\<exists>best.
      length (routeRisks p) = 5
    \<and> fst ` set (routeRisks p) = set allRoutes
    \<and> (\<forall>q \<in> set (routeRisks p).
          snd q = (case map_of p (id_route (fst q)) of
                     None \<Rightarrow> 1
                   | Some e \<Rightarrow> if overall e = 0 then 1 else overall e))
    \<and> sorted (map snd (routeRisks p))
    \<and> List.find (\<lambda>q. id_route (fst q) \<noteq> id_route PRIMARY_ROUTE) (routeRisks p) = Some best
    \<and> activeRouteId_after (triggerDisruption p activeRouteId assessPrimary optimize rnd)
        = id_route (fst best)
    \<and> fst best \<in> set ALTERNATIVE_ROUTES
    \<and> (\<forall>a \<in> set ALTERNATIVE_ROUTES. route_risk p (fst best) \<le> route_risk p a)
    \<and> (stored A B p \<longrightarrow>
         (\<forall>a \<in> set ALTERNATIVE_ROUTES. \<forall>e. map_of p (id_route a) = Some e
                \<longrightarrow> route_risk p a = overall e))"
proof -
  let ?xs = "routeRisks p"
  let ?P = "\<lambda>q. id_route (fst q) \<noteq> id_route PRIMARY_ROUTE"
  have pairs: "snd q = route_risk p (fst q)" "fst q \<in> set allRoutes" if "q \<in> set ?xs" for q
    using that by (auto simp: routeRisks_set)
  have alt_in: "(a, route_risk p a) \<in> set ?xs" if "a \<in> set ALTERNATIVE_ROUTES" for a
    using that by (auto simp: routeRisks_set allRoutes_def)
  have fsts: "fst ` set ?xs = set allRoutes"
    by (auto simp: routeRisks_set image_image)
  have risk: "snd q = (case map_of p (id_route (fst q)) of
                         None \<Rightarrow> 1
                       | Some e \<Rightarrow> if overall e = 0 then 1 else overall e)"
    if "q \<in> set ?xs" for q
    using pairs(1) [OF that]
    by (cases "map_of p (id_route (fst q))") (simp_all add: route_risk_def or_num_def)
  have "ALTERNATIVE_ROUTES ! 0 \<in> set ALTERNATIVE_ROUTES"
    by (simp add: length_ALTERNATIVE_ROUTES)
  then have "\<exists>q. q \<in> set ?xs \<and> ?P q"
    using alt_in alternative_not_primary by fastforce
  then have "List.find ?P ?xs \<noteq> None"
    by (simp add: find_None_iff)
  then obtain best where best: "List.find ?P ?xs = Some best"
    by blast
  then obtain i where i: "i < length ?xs" "?P (?xs ! i)" "best = ?xs ! i" "\<forall>j<i. \<not> ?P (?xs ! j)"
    unfolding find_Some_iff by blast
  from i(1,3) have best_in: "best \<in> set ?xs"
    by simp
  from pairs(2) [OF best_in] i(2,3) have best_alt: "fst best \<in> set ALTERNATIVE_ROUTES"
    by (auto simp: allRoutes_def)
  have lowest: "route_risk p (fst best) \<le> route_risk p a" if a: "a \<in> set ALTERNATIVE_ROUTES" for a
  proof -
    from alt_in [OF a] obtain k where k: "k < length ?xs" "?xs ! k = (a, route_risk p a)"
      by (auto simp: in_set_conv_nth)
    from alternative_not_primary [OF a] k(2) have "?P (?xs ! k)"
      by simp
    with i(4) have "i \<le> k"
      by (meson not_le_imp_less)
    with routeRisks_sorted [of p] k(1) have "map snd ?xs ! i \<le> map snd ?xs ! k"
      by (simp add: sorted_iff_nth_mono)
    with i(1,3) k pairs(1) [OF best_in] show ?thesis
      by simp
  qed
  have active: "activeRouteId_after (triggerDisruption p activeRouteId assessPrimary optimize rnd)
                  = id_route (fst best)"
    by (simp add: activeRouteId_after_eq bestAlternative_def best)
  have recorded: "stored A B p \<longrightarrow>
         (\<forall>a \<in> set ALTERNATIVE_ROUTES. \<forall>e. map_of p (id_route a) = Some e
                \<longrightarrow> route_risk p a = overall e)"
    using stored_route_risk_alternative by blast
  from routeRisks_length [of p] fsts risk routeRisks_sorted [of p] best active best_alt lowest
  have "length (routeRisks p) = 5
    \<and> fst ` set (routeRisks p) = set allRoutes
    \<and> (\<forall>q \<in> set (routeRisks p).
          snd q = (case map_of p (id_route (fst q)) of
                     None \<Rightarrow> 1
                   | Some e \<Rightarrow> if overall e = 0 then 1 else overall e))
    \<and> sorted (map snd (routeRisks p))
    \<and> List.find (\<lambda>q. id_route (fst q) \<noteq> id_route PRIMARY_ROUTE) (routeRisks p) = Some best
    \<and> activeRouteId_after (triggerDisruption p activeRouteId assessPrimary optimize rnd)
        = id_route (fst best)
    \<and> fst best \<in> set ALTERNATIVE_ROUTES
    \<and> (\<forall>a \<in> set ALTERNATIVE_ROUTES. route_risk p (fst best) \<le> route_risk p a)"
    by blast
  with recorded show ?thesis
    by blast
qed

lemma find_alternative_after_failed_load:
  "List.find (\<lambda>q. id_route (fst q) \<noteq> id_route PRIMARY_ROUTE) (routeRisks profile_after_failed_load)
     = Some (ALTERNATIVE_ROUTES ! 0, 1 / 4)"
  by code_simp

lemma lookup_alternative_after_failed_load:
  "map_option overall (map_of profile_after_failed_load (id_route (ALTERNATIVE_ROUTES ! 0))) = Some (1 / 4)"
  by code_simp

theorem triggerDisruption_selects_lowest_risk_alternative_witness:
  "activeRouteId_after
     (triggerDisruption profile_after_failed_load ''TW-LA-DIRECT'' Throws Throws no_jitter) = ''TW-VN-LA''
 \<and> route_risk profile_after_failed_load (ALTERNATIVE_ROUTES ! 0) = 1 / 4"
proof -
  from triggerDisruption_selects_lowest_risk_alternative
         [where p = profile_after_failed_load and activeRouteId = "''TW-LA-DIRECT''"
            and assessPrimary = Throws and optimize = Throws and rnd = no_jitter
            and A = any_response and B = any_response]
  obtain best where
    found: "List.find (\<lambda>q. id_route (fst q) \<noteq> id_route PRIMARY_ROUTE) (routeRisks profile_after_failed_load)
       = Some best"
    and active: "activeRouteId_after
       (triggerDisruption profile_after_failed_load ''TW-LA-DIRECT'' Throws Throws no_jitter)
       = id_route (fst best)"
    and recorded: "stored any_response any_response profile_after_failed_load \<longrightarrow>
         (\<forall>a \<in> set ALTERNATIVE_ROUTES. \<forall>e. map_of profile_after_failed_load (id_route a) = Some e
                \<longrightarrow> route_risk profile_after_failed_load a = overall e)"
    by blast
  from found have "best = (ALTERNATIVE_ROUTES ! 0, 1 / 4)"
    by (simp add: find_alternative_after_failed_load)
  then have "id_route (fst best) = ''TW-VN-LA''"
    by (simp add: ALTERNATIVE_ROUTES_def)
  with active have first: "activeRouteId_after
     (triggerDisruption profile_after_failed_load ''TW-LA-DIRECT'' Throws Throws no_jitter) = ''TW-VN-LA''"
    by simp
  have mem: "ALTERNATIVE_ROUTES ! 0 \<in> set ALTERNATIVE_ROUTES"
    by (simp add: length_ALTERNATIVE_ROUTES)
  from lookup_alternative_after_failed_load
  obtain e where e: "map_of profile_after_failed_load (id_route (ALTERNATIVE_ROUTES ! 0)) = Some e"
    "overall e = 1 / 4"
    by auto
  from recorded stored_profile_after_failed_load mem e(1)
  have "route_risk profile_after_failed_load (ALTERNATIVE_ROUTES ! 0) = overall e"
    by blast
  with first e(2) show ?thesis
    by simp
qed


subsection \<open>The primary route's risk after the disruption button\<close>

lemma map_of_optimized_forEach_defined:
  "map_of updated k \<noteq> None \<Longrightarrow> map_of (optimized_forEach rnd index routes updated) k \<noteq> None"
  by (induction routes arbitrary: index updated) (simp_all add: update_conv')

text \<open>
  When the optimisation succeeds, an entry for the primary route is raised to at least
  0.75.
\<close>

lemma disruption_optimize_success_primary:
  assumes "optimize_ok resp = Some routes" and "map_of p (id_route PRIMARY_ROUTE) \<noteq> None"
  shows "\<exists>e. map_of (riskProfile_after
                      (triggerDisruption p activeRouteId assessPrimary (Resolves resp) rnd))
                (id_route PRIMARY_ROUTE) = Some e
             \<and> 0.75 \<le> overall e"
proof -
  from assms(2) obtain e0 where "map_of (optimized_forEach rnd 0 routes p) (id_route PRIMARY_ROUTE) = Some e0"
    using map_of_optimized_forEach_defined by blast
  then have "map_of (raise_primary (optimized_forEach rnd 0 routes p)) (id_route PRIMARY_ROUTE)
               = Some \<lparr>overall = max 0.75 (overall e0), factors = factors e0\<rparr>"
    by (simp add: raise_primary_def update_conv')
  with assms(1) show ?thesis
    by (simp add: riskProfile_after_def triggerDisruption_def disruption_optimize_def Let_def)
qed

text \<open>
  C2 asks that, whatever the backend calls do, the handler leaves the primary route with an
  overall risk of at least 0.75. The dashboard has loaded with the health check passing and
  the assessment requests failing, and at the click every backend call throws: the
  \<^verbatim>\<open>catch\<close> of the primary assessment sets the primary route to 0.78, and the
  \<^verbatim>\<open>catch\<close> of the optimisation then sets a copy of the profile the handler closed
  over, in which the primary route still has 0.15. That is the profile the dashboard keeps.
\<close>

theorem disruption_backend_down_keeps_primary_risk:
  "stored any_response any_response profile_after_failed_load
 \<and> map_option overall (map_of profile_after_failed_load ''TW-LA-DIRECT'') = Some (15 / 100)
 \<and> map (\<lambda>w. map_option overall (map_of w ''TW-LA-DIRECT''))
       (writes (triggerDisruption profile_after_failed_load ''TW-LA-DIRECT'' Throws Throws no_jitter))
     = [Some (78 / 100), Some (15 / 100)]
 \<and> map_option overall
       (map_of (riskProfile_after
                  (triggerDisruption profile_after_failed_load ''TW-LA-DIRECT'' Throws Throws no_jitter))
               ''TW-LA-DIRECT'')
     = Some (15 / 100)"
proof -
  have a: "map_option overall (map_of profile_after_failed_load ''TW-LA-DIRECT'') = Some (15 / 100)"
    by code_simp
  have b: "map (\<lambda>w. map_option overall (map_of w ''TW-LA-DIRECT''))
       (writes (triggerDisruption profile_after_failed_load ''TW-LA-DIRECT'' Throws Throws no_jitter))
     = [Some (78 / 100), Some (15 / 100)]"
    by code_simp
  have c: "map_option overall
       (map_of (riskProfile_after
                  (triggerDisruption profile_after_failed_load ''TW-LA-DIRECT'' Throws Throws no_jitter))
               ''TW-LA-DIRECT'')
     = Some (15 / 100)"
    by code_simp
  from stored_profile_after_failed_load a b c show ?thesis
    by (intro conjI)
qed


subsection \<open>Risk values in the unit interval\<close>

lemma in_unit_max: "in_unit x \<Longrightarrow> 0 \<le> c \<Longrightarrow> c \<le> 1 \<Longrightarrow> in_unit (max c x)"
  by (auto simp: in_unit_def max_def)

lemma in_unit_clamp: "0 \<le> lo \<Longrightarrow> lo \<le> hi \<Longrightarrow> hi \<le> 1 \<Longrightarrow> in_unit (min hi (max lo x))"
  by (auto simp: in_unit_def max_def min_def)

lemma in_unit_or_num: "score_in_unit x \<Longrightarrow> in_unit d \<Longrightarrow> in_unit (or_num x d)"
  by (cases x) (simp_all add: score_in_unit_def or_num_def)

lemma score_in_unit_or_opt: "score_in_unit x \<Longrightarrow> score_in_unit y \<Longrightarrow> score_in_unit (or_opt x y)"
  by (simp add: or_opt_def)

lemma in_unit_affine:
  fixes c m t n :: real
  assumes "0 \<le> c" "0 \<le> m" "0 \<le> t" "t \<le> n" "c + n * m \<le> 1"
  shows "in_unit (c + t * m)"
proof -
  from assms have "t * m \<le> n * m"
    by (simp add: mult_right_mono)
  moreover from assms have "0 \<le> t * m"
    by simp
  ultimately show ?thesis
    using assms by (simp add: in_unit_def)
qed

lemma factor_scores_in_unit:
  assumes "case a of None \<Rightarrow> True | Some x \<Rightarrow> assessment_in_unit x"
  shows "score_in_unit (Option.bind (Option.bind a factors_json) congestion_json)"
    and "score_in_unit (Option.bind (Option.bind a factors_json) tariffs_json)"
    and "score_in_unit (Option.bind (Option.bind a factors_json) political_unrest)"
    and "score_in_unit (Option.bind (Option.bind a breakdown) port_congestion)"
    and "score_in_unit (Option.bind (Option.bind a breakdown) trade_news)"
    and "score_in_unit (Option.bind (Option.bind a breakdown) political)"
    and "score_in_unit (Option.bind a overall_risk_score)"
  using assms
  by (auto simp: assessment_in_unit_def score_in_unit_def split: option.splits Option.bind_splits)

lemma factor_of_in_unit:
  assumes "case a of None \<Rightarrow> True | Some x \<Rightarrow> assessment_in_unit x" and "in_unit d"
  shows "in_unit (factor_of a congestion_json port_congestion d)"
    and "in_unit (factor_of a tariffs_json trade_news d)"
    and "in_unit (factor_of a political_unrest political d)"
  unfolding factor_of_def
  by (intro in_unit_or_num score_in_unit_or_opt factor_scores_in_unit assms)+

lemma profile_in_unit_update:
  "profile_in_unit p \<Longrightarrow> entry_in_unit e \<Longrightarrow> profile_in_unit (AList.update k e p)"
  by (induction p) (auto simp: profile_in_unit_def)

lemma profile_in_unit_lookup:
  "profile_in_unit p \<Longrightarrow> map_of p k = Some e \<Longrightarrow> entry_in_unit e"
proof -
  assume "map_of p k = Some e"
  then have "(k, e) \<in> set p"
    by (rule map_of_SomeD)
  moreover assume "profile_in_unit p"
  ultimately show ?thesis
    by (force simp: profile_in_unit_def list_all_iff)
qed

lemma profile_in_unit_foldl_update:
  assumes "profile_in_unit p" and "\<And>r. r \<in> set rs \<Longrightarrow> entry_in_unit (val r)"
  shows "profile_in_unit (foldl (\<lambda>al r. AList.update (key r) (val r) al) p rs)"
  using assms by (induction rs arbitrary: p) (simp_all add: profile_in_unit_update)

text \<open>The entries of the initial assessment.\<close>

lemma initial_primary_fallback_in_unit: "entry_in_unit initial_primary_fallback"
  by (simp add: entry_in_unit_def initial_primary_fallback_def in_unit_def)

lemma initial_alt_fallback_in_unit:
  assumes "0 \<le> idx" "idx \<le> 3"
  shows "entry_in_unit (initial_alt_fallback idx)"
proof -
  have d: "in_unit (c + real_of_int idx * m)" if "0 \<le> c" "0 \<le> m" "c + 3 * m \<le> 1" for c m :: real
    using that assms by (intro in_unit_affine [where n = 3]) simp_all
  show ?thesis
    unfolding entry_in_unit_def initial_alt_fallback_def RiskEntry.select_convs Factors.select_convs
    by (intro conjI d; simp)
qed

lemma initial_primary_assessed_in_unit:
  assumes "assessment_in_unit a"
  shows "entry_in_unit (initial_primary_assessed a)"
proof -
  have d: "in_unit 0.1"
    by (simp add: in_unit_def)
  from assms have a: "case Some a of None \<Rightarrow> True | Some x \<Rightarrow> assessment_in_unit x"
    by simp
  from assms have "score_in_unit (overall_risk_score a)"
    by (simp add: assessment_in_unit_def)
  then have o: "in_unit (max 0.1 (or_num (overall_risk_score a) 0.1))"
    by (intro in_unit_max in_unit_or_num d) simp_all
  have f: "in_unit (max 0.05 (factor_of (Some a) congestion_json port_congestion 0.1))"
          "in_unit (max 0.05 (factor_of (Some a) tariffs_json trade_news 0.1))"
          "in_unit (max 0.05 (factor_of (Some a) political_unrest political 0.1))"
    by (intro in_unit_max factor_of_in_unit a d; simp)+
  show ?thesis
    unfolding entry_in_unit_def initial_primary_assessed_def RiskEntry.select_convs Factors.select_convs
    by (intro conjI o f)
qed

lemma initial_alt_assessed_in_unit:
  assumes "assessment_in_unit a" and idx: "0 \<le> idx" "idx \<le> 3"
  shows "entry_in_unit (initial_alt_assessed idx random a)"
proof -
  from assms have a: "case Some a of None \<Rightarrow> True | Some x \<Rightarrow> assessment_in_unit x"
    by simp
  have d: "in_unit (c + real_of_int idx * m)" if "0 \<le> c" "0 \<le> m" "c + 3 * m \<le> 1" for c m :: real
    using that idx by (intro in_unit_affine [where n = 3]) simp_all
  have o: "in_unit (min 0.85 (max 0.2 x))" for x :: real
    by (rule in_unit_clamp) simp_all
  have f: "in_unit (max 0.1 (factor_of (Some a) congestion_json port_congestion (0.2 + real_of_int idx * 0.05)))"
          "in_unit (max 0.05 (factor_of (Some a) tariffs_json trade_news (0.1 + real_of_int idx * 0.03)))"
          "in_unit (max 0.1 (factor_of (Some a) political_unrest political (0.2 + real_of_int idx * 0.04)))"
    by (intro in_unit_max factor_of_in_unit a d; simp)+
  show ?thesis
    unfolding entry_in_unit_def initial_alt_assessed_def Let_def RiskEntry.select_convs Factors.select_convs
    by (intro conjI o f)
qed

lemma assess_ok_in_unit:
  "assess_in_unit (Resolves resp) \<Longrightarrow> assess_ok resp = Some a \<Longrightarrow> assessment_in_unit a"
  by (auto simp: assess_in_unit_def assess_ok_def split: option.splits if_splits)

lemma initial_primary_entry_in_unit:
  "assess_in_unit out \<Longrightarrow> entry_in_unit (initial_primary_entry out)"
  by (auto simp: initial_primary_entry_def initial_primary_fallback_in_unit
                 initial_primary_assessed_in_unit assess_ok_in_unit
           split: outcome.splits option.splits)

lemma initial_alt_entry_in_unit:
  assumes "assess_in_unit (assess (id_route r))" and "r \<in> set ALTERNATIVE_ROUTES"
  shows "entry_in_unit (initial_alt_entry assess rnd r)"
  using assms indexOf_ALTERNATIVE_ROUTES_range [OF assms(2)]
  by (auto simp: initial_alt_entry_def Let_def initial_alt_fallback_in_unit
                 initial_alt_assessed_in_unit assess_ok_in_unit
           split: outcome.splits option.splits)

lemma initial_mock_profile_in_unit: "profile_in_unit initial_mock_profile"
  by code_simp

lemma initial_default_profile_in_unit: "profile_in_unit initial_default_profile"
  by code_simp

lemma fetchInitialData_in_unit:
  assumes "\<And>k. assess_in_unit (assess k)"
  shows "profile_in_unit (fetchInitialData health assess rnd)"
proof (cases health)
  case Throws
  then show ?thesis
    by (simp add: fetchInitialData_def initial_mock_profile_in_unit)
next
  case (Resolves u)
  have "profile_in_unit [(id_route PRIMARY_ROUTE, initial_primary_entry (assess (id_route PRIMARY_ROUTE)))]"
    by (simp add: profile_in_unit_def initial_primary_entry_in_unit assms)
  then show ?thesis
    unfolding Resolves fetchInitialData_assessed
    by (rule profile_in_unit_foldl_update) (simp add: initial_alt_entry_in_unit assms)
qed

text \<open>The entries of the polling refresh.\<close>

lemma poll_primary_in_unit:
  assumes "profile_in_unit p" and "assess_in_unit out"
  shows "profile_in_unit (poll_primary p out)"
proof (cases out)
  case Throws
  with assms show ?thesis
    by (simp add: poll_primary_def)
next
  case (Resolves resp)
  show ?thesis
  proof (cases "assess_ok resp")
    case None
    with Resolves assms show ?thesis
      by (simp add: poll_primary_def)
  next
    case (Some a)
    with assms Resolves have ain: "assessment_in_unit a"
      by (simp add: assess_ok_in_unit)
    then have a: "case Some a of None \<Rightarrow> True | Some x \<Rightarrow> assessment_in_unit x"
      by simp
    have d: "in_unit 0.1"
      by (simp add: in_unit_def)
    from ain have "score_in_unit (overall_risk_score a)"
      by (simp add: assessment_in_unit_def)
    then have o: "in_unit (or_num (overall_risk_score a) 0.1)"
      using d by (rule in_unit_or_num)
    have "entry_in_unit
            \<lparr>overall = or_num (overall_risk_score a) 0.1,
             factors =
               \<lparr>congestion = factor_of (Some a) congestion_json port_congestion 0.1,
                tariffs = factor_of (Some a) tariffs_json trade_news 0.1,
                unrest = factor_of (Some a) political_unrest political 0.1\<rparr>\<rparr>"
      unfolding entry_in_unit_def RiskEntry.select_convs Factors.select_convs
      by (intro conjI o factor_of_in_unit a d)
    with assms(1) show ?thesis
      unfolding poll_primary_def Resolves outcome.case Some option.case
      by (rule profile_in_unit_update)
  qed
qed

lemma poll_alt_assessed_in_unit:
  assumes "assessment_in_unit a" and idx: "0 \<le> idx" "idx \<le> 3"
  shows "entry_in_unit (poll_alt_assessed idx random a)"
proof -
  from assms have a: "case Some a of None \<Rightarrow> True | Some x \<Rightarrow> assessment_in_unit x"
    by simp
  have d: "in_unit (c + real_of_int idx * m)" if "0 \<le> c" "0 \<le> m" "c + 3 * m \<le> 1" for c m :: real
    using that idx by (intro in_unit_affine [where n = 3]) simp_all
  have o: "in_unit (min 0.9 (max 0.15 x))" for x :: real
    by (rule in_unit_clamp) simp_all
  have f: "in_unit (factor_of (Some a) congestion_json port_congestion (0.2 + real_of_int idx * 0.05))"
          "in_unit (factor_of (Some a) tariffs_json trade_news (0.1 + real_of_int idx * 0.02))"
          "in_unit (factor_of (Some a) political_unrest political (0.2 + real_of_int idx * 0.03))"
    by (intro factor_of_in_unit a d; simp)+
  show ?thesis
    unfolding entry_in_unit_def poll_alt_assessed_def Let_def RiskEntry.select_convs Factors.select_convs
    by (intro conjI o f)
qed

lemma poll_alt_in_unit:
  assumes "profile_in_unit p" and "assess_in_unit (assess (id_route r))" and "r \<in> set ALTERNATIVE_ROUTES"
  shows "profile_in_unit (poll_alt assess rnd p r)"
  using assms indexOf_ALTERNATIVE_ROUTES_range [OF assms(3)]
  by (auto simp: poll_alt_def profile_in_unit_update poll_alt_assessed_in_unit assess_ok_in_unit
           split: outcome.splits option.splits)

lemma foldl_poll_alt_in_unit:
  assumes "profile_in_unit p" and "\<And>k. assess_in_unit (assess k)" and "set rs \<subseteq> set ALTERNATIVE_ROUTES"
  shows "profile_in_unit (foldl (poll_alt assess rnd) p rs)"
  using assms(1,3)
proof (induction rs arbitrary: p)
  case Nil
  then show ?case by simp
next
  case (Cons r rs)
  from Cons.prems have "profile_in_unit (poll_alt assess rnd p r)"
    by (simp add: poll_alt_in_unit assms(2))
  with Cons.IH Cons.prems(2) show ?case
    by simp
qed

lemma poll_in_unit:
  assumes "profile_in_unit p" and "\<And>k. assess_in_unit (assess k)"
    and "poll p riskData assess rnd = Some p'"
  shows "profile_in_unit p'"
proof -
  from assms(3) have "p' = foldl (poll_alt assess rnd)
                             (poll_primary p (assess (id_route PRIMARY_ROUTE))) ALTERNATIVE_ROUTES"
    by (auto simp: poll_def split: outcome.splits)
  moreover have "profile_in_unit (poll_primary p (assess (id_route PRIMARY_ROUTE)))"
    using assms(1,2) by (simp add: poll_primary_in_unit)
  ultimately show ?thesis
    using assms(2) by (simp add: foldl_poll_alt_in_unit)
qed

text \<open>The entries of the disruption handler.\<close>

lemma disruption_fallbacks_in_unit:
  "entry_in_unit disruption_primary_fallback"
  "entry_in_unit disruption_alt0_fallback"
  "entry_in_unit disruption_alt1_fallback"
  by (simp_all add: entry_in_unit_def in_unit_def disruption_primary_fallback_def
        disruption_alt0_fallback_def disruption_alt1_fallback_def)

lemma disruption_primary_in_unit:
  assumes "profile_in_unit p" and "assess_in_unit out" and "disruption_primary p out = Some w"
  shows "profile_in_unit w"
proof (cases out)
  case Throws
  with assms show ?thesis
    by (auto simp: disruption_primary_def profile_in_unit_update disruption_fallbacks_in_unit)
next
  case (Resolves resp)
  with assms(3) obtain a where ok: "assess_ok resp = Some a"
    by (cases "assess_ok resp") (simp_all add: disruption_primary_def)
  with assms Resolves have ain: "assessment_in_unit a"
    by (simp add: assess_ok_in_unit)
  then have a: "case Some a of None \<Rightarrow> True | Some x \<Rightarrow> assessment_in_unit x"
    by simp
  have d: "in_unit 0.78" "in_unit 0.3" "in_unit 0.9" "in_unit 0.5"
    by (simp_all add: in_unit_def)
  from ain have "score_in_unit (overall_risk_score a)"
    by (simp add: assessment_in_unit_def)
  then have o: "in_unit (or_num (overall_risk_score a) 0.78)"
    using d(1) by (rule in_unit_or_num)
  have e: "entry_in_unit
            \<lparr>overall = or_num (overall_risk_score a) 0.78,
             factors =
               \<lparr>congestion = factor_of (Some a) congestion_json port_congestion 0.3,
                tariffs = factor_of (Some a) tariffs_json trade_news 0.9,
                unrest = factor_of (Some a) political_unrest political 0.5\<rparr>\<rparr>"
    unfolding entry_in_unit_def RiskEntry.select_convs Factors.select_convs
    by (intro conjI o factor_of_in_unit a d)
  from assms(3) have "w = AList.update (id_route PRIMARY_ROUTE)
            \<lparr>overall = or_num (overall_risk_score a) 0.78,
             factors =
               \<lparr>congestion = factor_of (Some a) congestion_json port_congestion 0.3,
                tariffs = factor_of (Some a) tariffs_json trade_news 0.9,
                unrest = factor_of (Some a) political_unrest political 0.5\<rparr>\<rparr> p"
    unfolding disruption_primary_def Resolves outcome.case ok option.case by simp
  with assms(1) e show ?thesis
    by (simp only: profile_in_unit_update)
qed

lemma optimized_entry_in_unit:
  assumes "optroute_in_unit route" and "index \<le> 16"
  shows "entry_in_unit (optimized_entry index random route)"
proof -
  from assms(1) have a: "case risk_assessment route of None \<Rightarrow> True | Some x \<Rightarrow> assessment_in_unit x"
    by (simp add: optroute_in_unit_def)
  have d: "in_unit (c + real index * m)" if "0 \<le> c" "0 \<le> m" "c + 16 * m \<le> 1" for c m :: real
    using that assms(2) by (intro in_unit_affine [where n = 16]) simp_all
  have o: "in_unit (min 0.9 (max 0.2 x))" for x :: real
    by (rule in_unit_clamp) simp_all
  have f: "in_unit (factor_of (risk_assessment route) congestion_json port_congestion (0.2 + real index * 0.05))"
          "in_unit (factor_of (risk_assessment route) tariffs_json trade_news (0.1 + real index * 0.03))"
          "in_unit (factor_of (risk_assessment route) political_unrest political (0.2 + real index * 0.04))"
    by (intro factor_of_in_unit a d; simp)+
  show ?thesis
    unfolding entry_in_unit_def optimized_entry_def Let_def RiskEntry.select_convs Factors.select_convs
    by (intro conjI o f)
qed

lemma optimized_forEach_in_unit:
  assumes "profile_in_unit updated" and "list_all optroute_in_unit routes"
    and "index + length routes \<le> 17"
  shows "profile_in_unit (optimized_forEach rnd index routes updated)"
  using assms
proof (induction routes arbitrary: index updated)
  case Nil
  then show ?case by simp
next
  case (Cons route routes)
  from Cons.prems have "entry_in_unit (optimized_entry index (rnd index) route)"
    by (intro optimized_entry_in_unit) simp_all
  with Cons.prems(1)
  have "profile_in_unit (AList.update (routeId_of index route)
                           (optimized_entry index (rnd index) route) updated)"
    by (rule profile_in_unit_update)
  moreover from Cons.prems have "list_all optroute_in_unit routes" "Suc index + length routes \<le> 17"
    by simp_all
  ultimately show ?case
    using Cons.IH by simp
qed

lemma raise_primary_in_unit:
  assumes "profile_in_unit p"
  shows "profile_in_unit (raise_primary p)"
proof (cases "map_of p (id_route PRIMARY_ROUTE)")
  case None
  with assms show ?thesis
    by (simp add: raise_primary_def)
next
  case (Some e)
  with assms have e: "entry_in_unit e"
    by (rule profile_in_unit_lookup)
  then have "in_unit (max 0.75 (overall e))"
    by (intro in_unit_max) (simp_all add: entry_in_unit_def)
  with e have "entry_in_unit \<lparr>overall = max 0.75 (overall e), factors = factors e\<rparr>"
    unfolding entry_in_unit_def RiskEntry.select_convs by simp
  with assms show ?thesis
    unfolding raise_primary_def Some option.case by (rule profile_in_unit_update)
qed

lemma disruption_alt_fallbacks_in_unit:
  "profile_in_unit p \<Longrightarrow> profile_in_unit (disruption_alt_fallbacks p)"
  by (simp add: disruption_alt_fallbacks_def profile_in_unit_update disruption_fallbacks_in_unit)

lemma disruption_optimize_in_unit:
  assumes "profile_in_unit p" and "optimize_in_unit out"
  shows "profile_in_unit (disruption_optimize p out rnd)"
proof (cases out)
  case Throws
  with assms show ?thesis
    by (simp add: disruption_optimize_def disruption_alt_fallbacks_in_unit)
next
  case (Resolves resp)
  show ?thesis
  proof (cases "optimize_ok resp")
    case None
    with Resolves assms show ?thesis
      by (simp add: disruption_optimize_def disruption_alt_fallbacks_in_unit)
  next
    case (Some routes)
    with assms(2) Resolves have "length routes \<le> 17" "list_all optroute_in_unit routes"
      by (auto simp: optimize_in_unit_def optimize_ok_def split: option.splits if_splits)
    with assms(1) have "profile_in_unit (optimized_forEach rnd 0 routes p)"
      by (intro optimized_forEach_in_unit) simp_all
    then have "profile_in_unit (raise_primary (optimized_forEach rnd 0 routes p))"
      by (rule raise_primary_in_unit)
    with Resolves Some show ?thesis
      by (simp add: disruption_optimize_def)
  qed
qed

lemma triggerDisruption_writes_in_unit:
  assumes "profile_in_unit p" and "assess_in_unit assessPrimary" and "optimize_in_unit optimize"
    and "w \<in> set (writes (triggerDisruption p activeRouteId assessPrimary optimize rnd))"
  shows "profile_in_unit w"
proof -
  from assms(4) consider "disruption_primary p assessPrimary = Some w"
    | "w = disruption_optimize p optimize rnd"
    by (auto simp: triggerDisruption_def Let_def split: option.splits)
  then show ?thesis
  proof cases
    case 1
    with assms(1,2) show ?thesis
      by (rule disruption_primary_in_unit)
  next
    case 2
    with assms(1,3) show ?thesis
      by (simp add: disruption_optimize_in_unit)
  qed
qed

lemma disruption_outer_catch_in_unit:
  "profile_in_unit p \<Longrightarrow> profile_in_unit (disruption_outer_catch p)"
  by (simp add: disruption_outer_catch_def profile_in_unit_update disruption_fallbacks_in_unit)

lemma fetchInitialData_primary:
  "map_of (fetchInitialData (Resolves u) assess rnd) (id_route PRIMARY_ROUTE)
     = Some (initial_primary_entry (assess (id_route PRIMARY_ROUTE)))"
proof -
  have "id_route PRIMARY_ROUTE \<notin> id_route ` set ALTERNATIVE_ROUTES"
    using alternative_not_primary by force
  then show ?thesis
    unfolding fetchInitialData_assessed by (simp add: map_of_foldl_update_other)
qed

text \<open>
  C3 says that every risk value the dashboard ever stores in the risk profile lies in
  \<open>[0,1]\<close>. The scores of the backend are stored as they come: when the initial assessment
  of the primary route reports an overall score of 1.5, that is the value stored.
\<close>

theorem stored_value_above_one:
  "stored any_response any_response (fetchInitialData (Resolves ()) (assess_constant (3 / 2)) no_jitter)
 \<and> map_option overall
      (map_of (fetchInitialData (Resolves ()) (assess_constant (3 / 2)) no_jitter) ''TW-LA-DIRECT'')
     = Some (3 / 2)
 \<and> \<not> profile_in_unit (fetchInitialData (Resolves ()) (assess_constant (3 / 2)) no_jitter)"
proof -
  let ?p = "fetchInitialData (Resolves ()) (assess_constant (3 / 2)) no_jitter"
  let ?e = "initial_primary_entry (assess_constant (3 / 2) (id_route PRIMARY_ROUTE))"
  have st: "stored any_response any_response ?p"
    by (rule stored_fetch) (simp add: any_response_def)
  have look: "map_of ?p ''TW-LA-DIRECT'' = Some ?e"
    using fetchInitialData_primary [of "()" "assess_constant (3 / 2)" no_jitter]
    by (simp only: id_route_PRIMARY)
  have ov: "overall ?e = 3 / 2"
    by (simp add: initial_primary_entry_def assess_constant_def assess_ok_def
          initial_primary_assessed_def or_num_def)
  have "\<not> entry_in_unit ?e"
    by (simp add: entry_in_unit_def in_unit_def ov)
  with look have "\<not> profile_in_unit ?p"
    using profile_in_unit_lookup by blast
  with st look ov show ?thesis
    by simp
qed

text \<open>
  C3, amended. Provided every risk score in the responses of the backend lies in \<open>[0,1]\<close>
  and an optimisation response lists at most 17 routes, every risk value the dashboard ever
  stores in the risk profile (the overall score and the congestion, tariffs and unrest
  scores of every route, written by the initial assessment, the polling refresh, the
  disruption handler and every fallback path) lies in \<open>[0,1]\<close>.
\<close>

theorem stored_profile_in_unit:
  assumes "stored assess_in_unit optimize_in_unit p"
  shows "profile_in_unit p"
  using assms
proof (induction rule: stored.induct)
  case stored_initial
  show ?case
    by (simp add: profile_in_unit_def)
next
  case (stored_fetch assess health rnd)
  then show ?case
    by (rule fetchInitialData_in_unit)
next
  case stored_fetch_default
  show ?case
    by (rule initial_default_profile_in_unit)
next
  case (stored_poll p assess riskData rnd p')
  from stored_poll.IH stored_poll.hyps(2,3) show ?case
    by (rule poll_in_unit)
next
  case (stored_disruption p assessPrimary optimize w activeRouteId rnd)
  from stored_disruption.IH stored_disruption.hyps(2,3,4) show ?case
    by (rule triggerDisruption_writes_in_unit)
next
  case (stored_disruption_catch p)
  then show ?case
    by (simp add: disruption_outer_catch_in_unit)
qed

theorem stored_profile_in_unit_witness:
  "profile_in_unit
     (riskProfile_after
        (triggerDisruption profile_after_failed_load ''TW-LA-DIRECT'' (assess_constant (1 / 2) ''TW-LA-DIRECT'')
           Throws no_jitter))"
proof -
  have "stored assess_in_unit optimize_in_unit profile_after_failed_load"
    unfolding profile_after_failed_load_def
    by (rule stored_fetch) (simp add: assess_in_unit_def assess_unreachable_def)
  moreover have "assess_in_unit (assess_constant (1 / 2) ''TW-LA-DIRECT'')"
    by (simp add: assess_in_unit_def assess_constant_def assessment_in_unit_def score_in_unit_def in_unit_def)
  moreover have "optimize_in_unit Throws"
    by (simp add: optimize_in_unit_def)
  moreover have "riskProfile_after
        (triggerDisruption profile_after_failed_load ''TW-LA-DIRECT'' (assess_constant (1 / 2) ''TW-LA-DIRECT'')
           Throws no_jitter)
      \<in> set (writes (triggerDisruption profile_after_failed_load ''TW-LA-DIRECT''
                       (assess_constant (1 / 2) ''TW-LA-DIRECT'') Throws no_jitter))"
    by (simp add: riskProfile_after_def triggerDisruption_def Let_def)
  ultimately have "stored assess_in_unit optimize_in_unit
     (riskProfile_after
        (triggerDisruption profile_after_failed_load ''TW-LA-DIRECT'' (assess_constant (1 / 2) ''TW-LA-DIRECT'')
           Throws no_jitter))"
    by (rule stored_disruption)
  then show ?thesis
    by (rule stored_profile_in_unit)
qed

end
